theory Spec2Isabelle
  imports Main "HOL-Library.Multiset"
begin

section \<open>Attribute values and attribute mappings\<close>

text \<open>
  Attribute values of atoms and bonds are Python objects.  The marks handled by the
  containers are \<^verbatim>\<open>None\<close>, integers, strings, tuples of those (hashable values) and
  lists of hashable values; \<^verbatim>\<open>_attr_renew\<close> puts list elements into a \<^verbatim>\<open>set\<close>, so
  list elements are hashable by type.  Python's \<^verbatim>\<open>==\<close> on these values is structural
  equality (a list never equals a tuple or a scalar).
\<close>

datatype hval = HNone | HInt int | HStr string | HTuple "hval list"

datatype pyval = Hv hval | PList "hval list"

text \<open>An attribute dict; \<^verbatim>\<open>attr.get(k)\<close> gives \<^verbatim>\<open>None\<close> for a missing key.\<close>

type_synonym attrs = "string \<rightharpoonup> pyval"

definition py_get :: "attrs \<Rightarrow> string \<Rightarrow> pyval" where
  "py_get attr k = (case attr k of None \<Rightarrow> Hv HNone | Some v \<Rightarrow> v)"

text \<open>Python truthiness, as tested by \<^verbatim>\<open>if bond:\<close> and \<^verbatim>\<open>if not mark:\<close>.\<close>

fun truthy :: "pyval \<Rightarrow> bool" where
  "truthy (Hv HNone) = False"
| "truthy (Hv (HInt i)) = (i \<noteq> 0)"
| "truthy (Hv (HStr s)) = (s \<noteq> [])"
| "truthy (Hv (HTuple xs)) = (xs \<noteq> [])"
| "truthy (PList xs) = (xs \<noteq> [])"

datatype error = AttributeError | KeyError | Exception string

section \<open>The attributed graph engine\<close>

text \<open>
  The containers subclass the graph engine's undirected \<^verbatim>\<open>Graph\<close>: a dict from node
  to attribute dict and one attribute dict per undirected edge.  Both are kept in
  insertion order; an edge is stored once under the endpoints it was first added with
  and found under either orientation.
\<close>

datatype kind = Molecule | CGR

record graph =
  kind :: kind
  node_list :: "(int \<times> attrs) list"
  edge_list :: "((int \<times> int) \<times> attrs) list"
  meta :: attrs

definition empty_graph :: "kind \<Rightarrow> graph" where
  "empty_graph k = \<lparr>kind = k, node_list = [], edge_list = [], meta = Map.empty\<rparr>"

definition node_ids :: "graph \<Rightarrow> int list" where
  "node_ids g = map fst (node_list g)"

text \<open>\<^verbatim>\<open>g.nodes[n]\<close>: the attribute dict of node \<open>n\<close>, if \<open>n\<close> is a node.\<close>

definition atom :: "graph \<Rightarrow> int \<Rightarrow> attrs option" where
  "atom g n = map_of (node_list g) n"

text \<open>\<^verbatim>\<open>g.nodes[n].get(k)\<close> as an option, also on the result of a call that may raise.\<close>

definition atom_attr :: "graph \<Rightarrow> int \<Rightarrow> string \<Rightarrow> pyval option" where
  "atom_attr g n k = Option.bind (atom g n) (\<lambda>a. a k)"

definition result_attr :: "error + graph \<Rightarrow> int \<Rightarrow> string \<Rightarrow> pyval option" where
  "result_attr r n k = (case r of Inl e \<Rightarrow> None | Inr g \<Rightarrow> atom_attr g n k)"

definition same_edge :: "int \<times> int \<Rightarrow> int \<times> int \<Rightarrow> bool" where
  "same_edge e f = (e = f \<or> e = (snd f, fst f))"

definition touches :: "int \<times> int \<Rightarrow> int \<Rightarrow> bool" where
  "touches e n = (fst e = n \<or> snd e = n)"

text \<open>\<^verbatim>\<open>g[n][m]\<close>: the attribute dict of the edge between \<open>n\<close> and \<open>m\<close>.\<close>

definition bond :: "graph \<Rightarrow> int \<Rightarrow> int \<Rightarrow> attrs option" where
  "bond g n m = map_option snd (find (\<lambda>e. same_edge (fst e) (n, m)) (edge_list g))"

text \<open>
  \<^verbatim>\<open>add_node(n, **attr)\<close> creates the node with \<open>attr\<close> or updates the existing dict
  with it; \<^verbatim>\<open>add_edge(u, v, **attr)\<close> creates missing endpoints with empty dicts and
  creates or updates the edge's dict.
\<close>

fun upsert_node :: "int \<Rightarrow> attrs \<Rightarrow> (int \<times> attrs) list \<Rightarrow> (int \<times> attrs) list" where
  "upsert_node n a [] = [(n, a)]"
| "upsert_node n a ((k, b) # ns) =
     (if k = n then (k, b ++ a) # ns else (k, b) # upsert_node n a ns)"

fun upsert_edge ::
  "int \<times> int \<Rightarrow> attrs \<Rightarrow> ((int \<times> int) \<times> attrs) list \<Rightarrow> ((int \<times> int) \<times> attrs) list" where
  "upsert_edge e a [] = [(e, a)]"
| "upsert_edge e a ((f, b) # es) =
     (if same_edge f e then (f, b ++ a) # es else (f, b) # upsert_edge e a es)"

definition add_node :: "int \<Rightarrow> attrs \<Rightarrow> graph \<Rightarrow> graph" where
  "add_node n a g = g\<lparr>node_list := upsert_node n a (node_list g)\<rparr>"

definition add_edge :: "int \<Rightarrow> int \<Rightarrow> attrs \<Rightarrow> graph \<Rightarrow> graph" where
  "add_edge u v a g =
     g\<lparr>node_list := upsert_node v Map.empty (upsert_node u Map.empty (node_list g)),
       edge_list := upsert_edge (u, v) a (edge_list g)\<rparr>"

text \<open>\<^verbatim>\<open>add_nodes_from\<close> and \<^verbatim>\<open>add_edges_from\<close> over \<^verbatim>\<open>(n, dict)\<close> and \<^verbatim>\<open>(u, v, dict)\<close> items.\<close>

definition add_nodes_from :: "(int \<times> attrs) list \<Rightarrow> graph \<Rightarrow> graph" where
  "add_nodes_from ns g = fold (\<lambda>(n, a). add_node n a) ns g"

definition add_edges_from :: "((int \<times> int) \<times> attrs) list \<Rightarrow> graph \<Rightarrow> graph" where
  "add_edges_from es g = fold (\<lambda>((u, v), a). add_edge u v a) es g"

text \<open>
  \<^verbatim>\<open>g.edges(nbunch, data=True)\<close>: every edge with an endpoint in \<open>nbunch\<close>, once;
  \<^verbatim>\<open>g[i].items()\<close>: the neighbours of \<open>i\<close> with the edge dicts, in the order the edges
  were added.
\<close>

definition edges_of :: "graph \<Rightarrow> int set \<Rightarrow> ((int \<times> int) \<times> attrs) list" where
  "edges_of g nbunch = filter (\<lambda>e. fst (fst e) \<in> nbunch \<or> snd (fst e) \<in> nbunch) (edge_list g)"

definition adj :: "graph \<Rightarrow> int \<Rightarrow> (int \<times> attrs) list" where
  "adj g i = map (\<lambda>e. (if fst (fst e) = i then snd (fst e) else fst (fst e), snd e))
               (filter (\<lambda>e. touches (fst e) i) (edge_list g))"

text \<open>
  The connected component of an atom, as the engine's \<^verbatim>\<open>connected_components\<close> finds it:
  the atoms reachable from it along edges.
\<close>

definition edge_rel :: "graph \<Rightarrow> (int \<times> int) set" where
  "edge_rel g = {(u, v). \<exists>e \<in> set (edge_list g). same_edge (fst e) (u, v)}"

definition component :: "graph \<Rightarrow> int \<Rightarrow> int set" where
  "component g a = {b. (a, b) \<in> (edge_rel g)\<^sup>*}"

text \<open>
  A well-formed graph, as the engine keeps it: node ids are distinct, every edge joins
  two nodes, and no edge is stored twice (under either orientation).
\<close>

definition norm_edge :: "int \<times> int \<Rightarrow> int \<times> int" where
  "norm_edge e = (min (fst e) (snd e), max (fst e) (snd e))"

definition wf_graph :: "graph \<Rightarrow> bool" where
  "wf_graph g \<longleftrightarrow>
     distinct (node_ids g) \<and>
     list_all (\<lambda>e. fst (fst e) \<in> set (node_ids g) \<and> snd (fst e) \<in> set (node_ids g)) (edge_list g) \<and>
     distinct (map (\<lambda>e. norm_edge (fst e)) (edge_list g))"

section \<open>CGRContainer.get_center_atoms\<close>

text \<open>
  The source collects the atoms in a \<^verbatim>\<open>set\<close> and returns \<^verbatim>\<open>list(nodes)\<close>, whose
  order Python does not specify; the model returns the atoms without repetition, in
  the order they are met.
\<close>

definition get_center_atoms :: "graph \<Rightarrow> int list" where
  "get_center_atoms g =
     remdups
       (map fst (filter (\<lambda>(n, node_attr). py_get node_attr ''s_charge'' \<noteq> py_get node_attr ''p_charge'')
                        (node_list g)) @
        concat (map (\<lambda>((n, m), edge_attr). [n, m])
                    (filter (\<lambda>(e, edge_attr). py_get edge_attr ''s_bond'' \<noteq> py_get edge_attr ''p_bond'')
                            (edge_list g))))"

section \<open>MoleculeContainer and CGRContainer: construction\<close>

text \<open>\<^verbatim>\<open>max(self, default=0)\<close> over the node ids.\<close>

definition max_node :: "graph \<Rightarrow> int" where
  "max_node g = (case node_ids g of [] \<Rightarrow> 0 | n # ns \<Rightarrow> fold max ns n)"

text \<open>
  \<^verbatim>\<open>_map\<close> is \<open>None\<close> (take the next id) or a given id, which must be new.  The
  in-place mutation of \<^verbatim>\<open>self\<close> is the returned graph.
\<close>

definition new_map :: "graph \<Rightarrow> int option \<Rightarrow> error + int" where
  "new_map g map_opt =
     (case map_opt of
        None \<Rightarrow> Inr (max_node g + 1)
      | Some m \<Rightarrow> if m \<in> set (node_ids g) then Inl (Exception ''mapping exists'') else Inr m)"

definition mol_add_atom ::
  "graph \<Rightarrow> pyval \<Rightarrow> pyval \<Rightarrow> int option \<Rightarrow> pyval \<Rightarrow> pyval \<Rightarrow> pyval \<Rightarrow> pyval \<Rightarrow> error + graph" where
  "mol_add_atom g element s_charge map_opt mark x y z =
     (case new_map g map_opt of
        Inl e \<Rightarrow> Inl e
      | Inr m \<Rightarrow>
          Inr (add_node m [''element'' \<mapsto> element, ''s_charge'' \<mapsto> s_charge, ''mark'' \<mapsto> mark,
                           ''s_x'' \<mapsto> x, ''s_y'' \<mapsto> y, ''s_z'' \<mapsto> z, ''map'' \<mapsto> Hv (HInt m)] g))"

text \<open>\<^verbatim>\<open>if p is None: p = s\<close>, for the product-side defaults of \<^verbatim>\<open>CGRContainer.add_atom\<close>.\<close>

definition default_to :: "pyval \<Rightarrow> pyval \<Rightarrow> pyval" where
  "default_to p s = (if p = Hv HNone then s else p)"

definition cgr_add_atom ::
  "graph \<Rightarrow> pyval \<Rightarrow> pyval \<Rightarrow> pyval \<Rightarrow> int option \<Rightarrow> pyval \<Rightarrow>
   pyval \<Rightarrow> pyval \<Rightarrow> pyval \<Rightarrow> pyval \<Rightarrow> pyval \<Rightarrow> pyval \<Rightarrow> error + graph" where
  "cgr_add_atom g element s_charge p_charge map_opt mark s_x s_y s_z p_x p_y p_z =
     (case new_map g map_opt of
        Inl e \<Rightarrow> Inl e
      | Inr m \<Rightarrow>
          Inr (add_node m [''element'' \<mapsto> element, ''s_charge'' \<mapsto> s_charge,
                           ''p_charge'' \<mapsto> default_to p_charge s_charge, ''mark'' \<mapsto> mark,
                           ''s_x'' \<mapsto> s_x, ''s_y'' \<mapsto> s_y, ''s_z'' \<mapsto> s_z,
                           ''p_x'' \<mapsto> default_to p_x s_x, ''p_y'' \<mapsto> default_to p_y s_y,
                           ''p_z'' \<mapsto> default_to p_z s_z, ''map'' \<mapsto> Hv (HInt m)] g))"

text \<open>The defaults of the signatures: \<^verbatim>\<open>_map=None, mark='0'\<close>, coordinates \<^verbatim>\<open>0\<close> or \<^verbatim>\<open>None\<close>.\<close>

definition mol_add_atom_default :: "graph \<Rightarrow> pyval \<Rightarrow> pyval \<Rightarrow> error + graph" where
  "mol_add_atom_default g element s_charge =
     mol_add_atom g element s_charge None (Hv (HStr ''0'')) (Hv (HInt 0)) (Hv (HInt 0)) (Hv (HInt 0))"

definition cgr_add_atom_default :: "graph \<Rightarrow> pyval \<Rightarrow> pyval \<Rightarrow> error + graph" where
  "cgr_add_atom_default g element s_charge =
     cgr_add_atom g element s_charge (Hv HNone) None (Hv (HStr ''0''))
       (Hv (HInt 0)) (Hv (HInt 0)) (Hv (HInt 0)) (Hv HNone) (Hv HNone) (Hv HNone)"

definition mol_add_bond :: "graph \<Rightarrow> int \<Rightarrow> int \<Rightarrow> pyval \<Rightarrow> error + graph" where
  "mol_add_bond g atom1 atom2 mark =
     (if atom1 \<notin> set (node_ids g) \<or> atom2 \<notin> set (node_ids g) then Inl (Exception ''atoms not found'')
      else if \<not> truthy mark then Inl (Exception ''no bond data'')
      else Inr (add_edge atom1 atom2 [''s_bond'' \<mapsto> mark] g))"

definition cgr_add_bond :: "graph \<Rightarrow> int \<Rightarrow> int \<Rightarrow> pyval \<Rightarrow> pyval \<Rightarrow> error + graph" where
  "cgr_add_bond g atom1 atom2 s_mark p_mark =
     (if atom1 \<notin> set (node_ids g) \<or> atom2 \<notin> set (node_ids g) then Inl (Exception ''atoms not found'')
      else
        let attr = (if truthy s_mark then [''s_bond'' \<mapsto> s_mark] else Map.empty);
            attr = (if truthy p_mark then attr(''p_bond'' \<mapsto> p_mark) else attr)
        in if attr = Map.empty then Inl (Exception ''no bonds data'')
           else Inr (add_edge atom1 atom2 attr g))"

section \<open>The attribute schema\<close>

definition node_base :: "string list" where
  "node_base = [''element'', ''isotope'', ''mark'', ''s_x'', ''s_y'', ''s_z'']"

definition mol_node_marks :: "string list" where
  "mol_node_marks = [''s_neighbors'', ''s_hyb'', ''s_charge'', ''s_stereo'']"

definition mol_edge_marks :: "string list" where
  "mol_edge_marks = [''s_bond'', ''s_stereo'']"

definition node_s :: "string list" where
  "node_s = mol_node_marks @ node_base"

definition edge_s :: "string list" where
  "edge_s = mol_edge_marks"

definition sp_triple :: "string \<Rightarrow> string \<times> string \<times> string" where
  "sp_triple mark = (''s_'' @ mark, ''p_'' @ mark, ''sp_'' @ mark)"

definition cgr_node_marks :: "(string \<times> string \<times> string) list" where
  "cgr_node_marks = map sp_triple [''neighbors'', ''hyb'', ''charge'', ''stereo'']"

definition cgr_edge_marks :: "(string \<times> string \<times> string) list" where
  "cgr_edge_marks = map sp_triple [''bond'', ''stereo'']"

definition node_sp :: "string list" where
  "node_sp = concat (map (\<lambda>(s, p, sp). [s, p]) cgr_node_marks) @ node_base @ [''p_x'', ''p_y'', ''p_z'']"

definition edge_sp :: "string list" where
  "edge_sp = [''s_bond'', ''p_bond'', ''s_stereo'', ''p_stereo'']"

section \<open>The mark normaliser: \<^verbatim>\<open>_attr_renew\<close> and \<^verbatim>\<open>fix_data\<close>\<close>

definition mol_attr_renew :: "attrs \<Rightarrow> string list \<Rightarrow> attrs" where
  "mol_attr_renew attr marks =
     fold (\<lambda>s new_attr. let ls = py_get attr s in
             if ls \<noteq> Hv HNone then new_attr(s \<mapsto> ls) else new_attr)
          marks Map.empty"

text \<open>
  The list branches of \<^verbatim>\<open>CGRContainer._attr_renew\<close> build \<^verbatim>\<open>new_attr[sp]\<close> as
  \<^verbatim>\<open>list(set(pairs))\<close> and read \<^verbatim>\<open>new_attr[s]\<close> and \<^verbatim>\<open>new_attr[p]\<close> off its
  components.  Python leaves the order of \<^verbatim>\<open>list(set(...))\<close> open; the model takes
  \<open>remdups\<close>.
\<close>

definition sp_lists :: "string \<times> string \<times> string \<Rightarrow> (hval \<times> hval) list \<Rightarrow> attrs \<Rightarrow> attrs" where
  "sp_lists m pairs new_attr =
     (case m of (s, p, sp) \<Rightarrow>
        new_attr(sp \<mapsto> PList (map (\<lambda>(x, y). HTuple [x, y]) pairs),
                 s \<mapsto> PList (map fst pairs), p \<mapsto> PList (map snd pairs)))"

definition cgr_renew_mark :: "attrs \<Rightarrow> string \<times> string \<times> string \<Rightarrow> attrs \<Rightarrow> attrs" where
  "cgr_renew_mark attr m new_attr =
     (case m of (s, p, sp) \<Rightarrow>
        (case (py_get attr s, py_get attr p) of
           (PList ls, PList lp) \<Rightarrow>
             if ls = lp
             then new_attr(sp \<mapsto> PList (remdups ls), s \<mapsto> PList (remdups ls), p \<mapsto> PList (remdups ls))
             else sp_lists m (remdups (filter (\<lambda>(x, y). x \<noteq> y) (zip ls lp))) new_attr
         | (PList ls, Hv lp) \<Rightarrow>
             sp_lists m (remdups (map (\<lambda>x. (x, lp)) (filter (\<lambda>x. x \<noteq> lp) ls))) new_attr
         | (Hv ls, PList lp) \<Rightarrow>
             sp_lists m (remdups (map (\<lambda>x. (ls, x)) (filter (\<lambda>x. x \<noteq> ls) lp))) new_attr
         | (Hv ls, Hv lp) \<Rightarrow>
             if ls \<noteq> lp then new_attr(sp \<mapsto> Hv (HTuple [ls, lp]))
             else if ls \<noteq> HNone then new_attr(sp \<mapsto> Hv ls)
             else new_attr))"

definition cgr_attr_renew :: "attrs \<Rightarrow> (string \<times> string \<times> string) list \<Rightarrow> attrs" where
  "cgr_attr_renew attr marks = fold (cgr_renew_mark attr) marks Map.empty"

text \<open>\<^verbatim>\<open>self._attr_renew(a, self._node_marks)\<close>, dispatched on the class of the entity.\<close>

definition renew_node :: "kind \<Rightarrow> attrs \<Rightarrow> attrs" where
  "renew_node k a = (case k of Molecule \<Rightarrow> mol_attr_renew a mol_node_marks
                             | CGR \<Rightarrow> cgr_attr_renew a cgr_node_marks)"

definition renew_edge :: "kind \<Rightarrow> attrs \<Rightarrow> attrs" where
  "renew_edge k a = (case k of Molecule \<Rightarrow> mol_attr_renew a mol_edge_marks
                             | CGR \<Rightarrow> cgr_attr_renew a cgr_edge_marks)"

text \<open>
  \<^verbatim>\<open>fix_data(nodes_bunch, edges_bunch)\<close>: every node of the bunch (all nodes for
  \<open>None\<close>) and every edge with an endpoint in the edge bunch (all edges for \<open>None\<close>)
  has its dict cleared and refilled from \<^verbatim>\<open>_attr_renew\<close>.  The bunches are sets of
  node ids, as \<^verbatim>\<open>compose\<close> passes them.  The result is the mutated entity (or the
  mutated copy, for \<^verbatim>\<open>copy=True\<close>).
\<close>

definition in_bunch :: "int set option \<Rightarrow> int \<Rightarrow> bool" where
  "in_bunch bunch n = (case bunch of None \<Rightarrow> True | Some S \<Rightarrow> n \<in> S)"

definition fix_data :: "graph \<Rightarrow> int set option \<Rightarrow> int set option \<Rightarrow> graph" where
  "fix_data g nodes_bunch edges_bunch =
     g\<lparr>node_list := map (\<lambda>(n, a). if in_bunch nodes_bunch n then (n, renew_node (kind g) a) else (n, a))
                         (node_list g),
       edge_list := map (\<lambda>(e, a). if in_bunch edges_bunch (fst e) \<or> in_bunch edges_bunch (snd e)
                                   then (e, renew_edge (kind g) a) else (e, a))
                         (edge_list g)\<rparr>"

section \<open>The hybridization and neighbour deriver: \<^verbatim>\<open>reset_query_marks\<close>\<close>

text \<open>
  The \<^verbatim>\<open>if/elif\<close> chain on one incident bond: \<open>b_type\<close> is \<^verbatim>\<open>bond.get(b)\<close> and
  \<open>hyb\<close> is \<^verbatim>\<open>label[h]\<close> (1 sp3, 2 sp2, 3 sp1, 4 aromatic).
\<close>

definition hyb_update :: "pyval \<Rightarrow> int \<Rightarrow> int" where
  "hyb_update b_type hyb =
     (if b_type = Hv (HInt 1) \<or> b_type = Hv HNone \<or> hyb = 3 \<or> hyb = 4 then hyb
      else if b_type = Hv (HInt 4) then 4
      else if b_type = Hv (HInt 3) \<or> (b_type = Hv (HInt 2) \<and> hyb = 2) then 3
      else if b_type = Hv (HInt 2) \<and> hyb \<noteq> 3 then 2
      else hyb)"

text \<open>
  The loop \<^verbatim>\<open>for node, bond in g[i].items()\<close> for one channel \<open>b\<close>, on the pair
  \<^verbatim>\<open>(label[h], label[n])\<close>.  \<^verbatim>\<open>g.nodes[node]['element']\<close> is read only when the
  bond mark is truthy and raises \<^verbatim>\<open>KeyError\<close> when the neighbour has no element.
\<close>

fun marks_loop :: "graph \<Rightarrow> string \<Rightarrow> (int \<times> attrs) list \<Rightarrow> int \<times> int \<Rightarrow> error + int \<times> int" where
  "marks_loop g b [] label = Inr label"
| "marks_loop g b ((node, bond_attr) # items) (hyb, neighbors) =
     (let b_type = py_get bond_attr b in
      if truthy b_type then
        (case Option.bind (atom g node) (\<lambda>a. a ''element'') of
           None \<Rightarrow> Inl KeyError
         | Some el \<Rightarrow>
             marks_loop g b items
               (hyb_update b_type hyb, if el \<noteq> Hv (HStr ''H'') then neighbors + 1 else neighbors))
      else marks_loop g b items (hyb_update b_type hyb, neighbors))"

definition mol_query_label :: "graph \<Rightarrow> int \<Rightarrow> error + attrs" where
  "mol_query_label g i =
     (case marks_loop g ''s_bond'' (adj g i) (1, 0) of
        Inl e \<Rightarrow> Inl e
      | Inr (hyb, neighbors) \<Rightarrow>
          Inr [''s_hyb'' \<mapsto> Hv (HInt hyb), ''p_hyb'' \<mapsto> Hv (HInt 1),
               ''s_neighbors'' \<mapsto> Hv (HInt neighbors), ''p_neighbors'' \<mapsto> Hv (HInt 0)])"

text \<open>\<^verbatim>\<open>(label[n], label[m]) if label[n] != label[m] else label[n]\<close>\<close>

definition sp_mark :: "int \<Rightarrow> int \<Rightarrow> pyval" where
  "sp_mark n m = (if n \<noteq> m then Hv (HTuple [HInt n, HInt m]) else Hv (HInt n))"

definition cgr_query_label :: "graph \<Rightarrow> int \<Rightarrow> error + attrs" where
  "cgr_query_label g i =
     (case marks_loop g ''s_bond'' (adj g i) (1, 0) of
        Inl e \<Rightarrow> Inl e
      | Inr (s_hyb, s_neighbors) \<Rightarrow>
          (case marks_loop g ''p_bond'' (adj g i) (1, 0) of
             Inl e \<Rightarrow> Inl e
           | Inr (p_hyb, p_neighbors) \<Rightarrow>
               Inr [''s_hyb'' \<mapsto> Hv (HInt s_hyb), ''p_hyb'' \<mapsto> Hv (HInt p_hyb),
                    ''sp_hyb'' \<mapsto> sp_mark s_hyb p_hyb,
                    ''s_neighbors'' \<mapsto> Hv (HInt s_neighbors), ''p_neighbors'' \<mapsto> Hv (HInt p_neighbors),
                    ''sp_neighbors'' \<mapsto> sp_mark s_neighbors p_neighbors]))"

text \<open>\<^verbatim>\<open>for i in g: ...; g.nodes[i].update(label)\<close>\<close>

fun query_marks_loop :: "(graph \<Rightarrow> int \<Rightarrow> error + attrs) \<Rightarrow> int list \<Rightarrow> graph \<Rightarrow> error + graph" where
  "query_marks_loop lab [] g = Inr g"
| "query_marks_loop lab (i # rest) g =
     (case lab g i of
        Inl e \<Rightarrow> Inl e
      | Inr label \<Rightarrow> query_marks_loop lab rest (add_node i label g))"

definition mol_reset_query_marks :: "graph \<Rightarrow> error + graph" where
  "mol_reset_query_marks g = query_marks_loop mol_query_label (node_ids g) g"

definition cgr_reset_query_marks :: "graph \<Rightarrow> error + graph" where
  "cgr_reset_query_marks g = query_marks_loop cgr_query_label (node_ids g) g"

definition reset_query_marks :: "graph \<Rightarrow> error + graph" where
  "reset_query_marks g =
     (case kind g of Molecule \<Rightarrow> mol_reset_query_marks g | CGR \<Rightarrow> cgr_reset_query_marks g)"

section \<open>\<^verbatim>\<open>subgraph\<close> and \<^verbatim>\<open>get_environment\<close>\<close>

text \<open>
  The induced subgraph on the nodes of the bunch that are in the graph, as a new entity
  of the same class; the meta mapping is copied only on request, and \<^verbatim>\<open>_fix_stereo\<close>
  does nothing.
\<close>

definition subgraph :: "graph \<Rightarrow> int set \<Rightarrow> bool \<Rightarrow> graph" where
  "subgraph g nbunch with_meta =
     \<lparr>kind = kind g,
      node_list = filter (\<lambda>(n, a). n \<in> nbunch) (node_list g),
      edge_list = filter (\<lambda>(e, a). fst e \<in> nbunch \<and> snd e \<in> nbunch) (edge_list g),
      meta = (if with_meta then meta g else Map.empty)\<rparr>"

text \<open>\<^verbatim>\<open>set(chain.from_iterable(self.edges(nodes[i])))\<close>\<close>

definition endpoints_of :: "graph \<Rightarrow> int set \<Rightarrow> int set" where
  "endpoints_of g S = set (concat (map (\<lambda>e. [fst (fst e), snd (fst e)]) (edges_of g S)))"

text \<open>
  \<^verbatim>\<open>for i in range(deep)\<close>: the first argument counts the iterations left, \<open>i\<close> is the
  loop index and \<open>nodes\<close> the list of node sets.
\<close>

fun env_loop :: "graph \<Rightarrow> nat \<Rightarrow> nat \<Rightarrow> int set list \<Rightarrow> int set list" where
  "env_loop g 0 i nodes = nodes"
| "env_loop g (Suc k) i nodes =
     (let n = endpoints_of g (nodes ! i) in
      if n = {} \<or> n \<in> set nodes then nodes
      else env_loop g k (Suc i) (nodes @ [n]))"

text \<open>
  The expansion as the design words it, for comparison with the loop above: it stops
  as soon as an expansion step adds no new atoms to the current set.
\<close>

fun env_loop_spec :: "graph \<Rightarrow> nat \<Rightarrow> nat \<Rightarrow> int set list \<Rightarrow> int set list" where
  "env_loop_spec g 0 i nodes = nodes"
| "env_loop_spec g (Suc k) i nodes =
     (let n = endpoints_of g (nodes ! i) in
      if n \<subseteq> nodes ! i then nodes
      else env_loop_spec g k (Suc i) (nodes @ [n]))"

datatype env_result = One graph | Many "graph list"

definition get_environment :: "graph \<Rightarrow> int list \<Rightarrow> bool \<Rightarrow> nat \<Rightarrow> env_result" where
  "get_environment g atoms dante deep =
     (let nodes = env_loop g deep 0 [set atoms] in
      if dante then Many (map (\<lambda>a. subgraph g a False) nodes)
      else One (subgraph g (last nodes) False))"

section \<open>Serialization: \<^verbatim>\<open>pickle\<close> and \<^verbatim>\<open>unpickle\<close>\<close>

text \<open>
  The JSON-graph document: the node entries (id and attributes), the link entries
  (\<^verbatim>\<open>atom1\<close>, \<^verbatim>\<open>atom2\<close> and attributes), the meta mapping and the \<^verbatim>\<open>s_only\<close> flag.
  \<^verbatim>\<open>node_link_data\<close> lists the nodes and edges of a graph and \<^verbatim>\<open>node_link_graph\<close>
  adds them to a fresh graph.
\<close>

record pickled =
  pk_nodes :: "(int \<times> attrs) list"
  pk_links :: "((int \<times> int) \<times> attrs) list"
  pk_meta :: attrs
  s_only :: bool

definition pickle :: "graph \<Rightarrow> pickled" where
  "pickle self =
     (let (s_only_flag, node_marks, edge_marks) =
            (case kind self of CGR \<Rightarrow> (False, node_sp, edge_sp)
                             | Molecule \<Rightarrow> (True, node_s, edge_s));
          g = add_nodes_from (map (\<lambda>(n, a). (n, a |` set node_marks)) (node_list self))
                (empty_graph Molecule);
          g = add_edges_from (map (\<lambda>(e, a). (e, a |` set edge_marks)) (edge_list self)) g
      in \<lparr>pk_nodes = node_list g, pk_links = edge_list g, pk_meta = meta self, s_only = s_only_flag\<rparr>)"

definition unpickle :: "pickled \<Rightarrow> graph" where
  "unpickle data =
     (let g = add_edges_from (pk_links data)
                (add_nodes_from (pk_nodes data)
                   (empty_graph (if s_only data then Molecule else CGR)));
          g = fix_data g None None
      in g\<lparr>meta := meta g ++ pk_meta data\<rparr>)"

section \<open>The merge engine: \<^verbatim>\<open>CGRcore.union\<close> and \<^verbatim>\<open>CGRcore.compose\<close>\<close>

definition CGRcore_union :: "graph \<Rightarrow> graph \<Rightarrow> error + graph" where
  "CGRcore_union m1 m2 =
     (if set (node_ids m1) \<inter> set (node_ids m2) \<noteq> {}
      then Inl (Exception ''The node sets of m1 and m2 are not disjoint.'')
      else
        let u = empty_graph (if kind m1 = CGR \<or> kind m2 = CGR then CGR else Molecule);
            u = add_nodes_from (node_list m1) u;
            u = add_nodes_from (node_list m2) u;
            u = add_edges_from (edge_list m1) u;
            u = add_edges_from (edge_list m2) u
        in Inr u)"

text \<open>The role table \<^verbatim>\<open>__popdict\<close>.\<close>

datatype role = Reagents | Products

record popdict =
  pd_edge :: string
  pd_stereo :: string
  pd_node :: "string list"
  pd_ext_node :: "string list"

fun popdict_of :: "role \<Rightarrow> popdict" where
  "popdict_of Products =
     \<lparr>pd_edge = ''p_bond'', pd_stereo = ''p'',
      pd_node = [''p_charge'', ''p_neighbors'', ''p_hyb'', ''p_x'', ''p_y'', ''p_z'',
                 ''mark'', ''element'', ''map''],
      pd_ext_node = [''s_neighbors'', ''s_hyb'', ''sp_neighbors'', ''sp_hyb'']\<rparr>"
| "popdict_of Reagents =
     \<lparr>pd_edge = ''s_bond'', pd_stereo = ''s'',
      pd_node = [''s_charge'', ''s_neighbors'', ''s_hyb'', ''s_x'', ''s_y'', ''s_z''],
      pd_ext_node = [''p_neighbors'', ''p_hyb'', ''sp_neighbors'', ''sp_hyb'']\<rparr>"

text \<open>
  \<^verbatim>\<open>g.stereo\<close>: neither \<^verbatim>\<open>MoleculeContainer\<close> nor \<^verbatim>\<open>CGRContainer\<close> (nor the graph
  engine's \<^verbatim>\<open>Graph\<close>) defines an attribute \<^verbatim>\<open>stereo\<close>, and no method assigns one, so
  the attribute access raises \<^verbatim>\<open>AttributeError\<close>.
\<close>

definition stereo :: "graph \<Rightarrow> error + unit" where
  "stereo g = Inl AttributeError"

text \<open>
  The loop over \<^verbatim>\<open>g.edges(common, data=True)\<close> on \<^verbatim>\<open>(ext_common, h)\<close>, and the loop
  over \<^verbatim>\<open>g.edges(uniq, data=True)\<close> on \<open>h\<close>.  Both evaluate \<^verbatim>\<open>n in g.stereo\<close> right
  after \<^verbatim>\<open>h.add_edge\<close>; the staging of stereo descriptors behind it is never reached.
\<close>

fun common_edges_loop ::
  "graph \<Rightarrow> string \<Rightarrow> ((int \<times> int) \<times> attrs) list \<Rightarrow> int set \<times> graph \<Rightarrow> error + int set \<times> graph" where
  "common_edges_loop g pop [] (ext_common, h) = Inr (ext_common, h)"
| "common_edges_loop g pop (((n, m), attr) # es) (ext_common, h) =
     (let ext_common' = insert m (insert n ext_common);
          bond_mark = py_get attr pop
      in if truthy bond_mark then
           (let h' = add_edge n m [pop \<mapsto> bond_mark] h in
            case stereo g of
              Inl e \<Rightarrow> Inl e
            | Inr _ \<Rightarrow> common_edges_loop g pop es (ext_common', h'))
         else common_edges_loop g pop es (ext_common', h))"

fun uniq_edges_loop :: "graph \<Rightarrow> ((int \<times> int) \<times> attrs) list \<Rightarrow> graph \<Rightarrow> error + graph" where
  "uniq_edges_loop g [] h = Inr h"
| "uniq_edges_loop g (((n, m), attr) # es) h =
     (let h' = add_edge n m attr h in
      case stereo g of
        Inl e \<Rightarrow> Inl e
      | Inr _ \<Rightarrow> uniq_edges_loop g es h')"

text \<open>
  The three node loops of a role: \<^verbatim>\<open>h.add_node(n, **{...})\<close> for the atoms of a set,
  with the dict of \<^verbatim>\<open>g.nodes[n]\<close> restricted to the keys \<open>keep\<close> lets through.  The
  atoms of the set are visited in the order of \<open>g\<close>'s nodes.
\<close>

definition copy_nodes :: "graph \<Rightarrow> int set \<Rightarrow> (string \<Rightarrow> bool) \<Rightarrow> graph \<Rightarrow> graph" where
  "copy_nodes g S keep h =
     fold (\<lambda>(n, a). add_node n (\<lambda>k. if keep k then a k else None))
          (filter (\<lambda>(n, a). n \<in> S) (node_list g)) h"

definition compose_role :: "role \<Rightarrow> graph \<Rightarrow> int set \<Rightarrow> graph \<Rightarrow> error + graph \<times> int set" where
  "compose_role i g common h =
     (let pdi = popdict_of i in
      case common_edges_loop g (pd_edge pdi) (edges_of g common) (common, h) of
        Inl e \<Rightarrow> Inl e
      | Inr (ext_common, h1) \<Rightarrow>
          (let uniq = set (node_ids g) - ext_common in
           case uniq_edges_loop g (edges_of g uniq) h1 of
             Inl e \<Rightarrow> Inl e
           | Inr h2 \<Rightarrow>
               (let h3 = copy_nodes g common (\<lambda>k. k \<in> set (pd_node pdi)) h2;
                    h4 = copy_nodes g (ext_common - common) (\<lambda>k. k \<notin> set (pd_ext_node pdi)) h3;
                    h5 = copy_nodes g uniq (\<lambda>k. True) h4
                in Inr (h5, ext_common))))"

text \<open>
  \<^verbatim>\<open>compose(m1, m2)\<close>.  When the role loops return, \<^verbatim>\<open>new_stereo\<close> is still empty, so
  the closing loop over it (which would call the no-op \<^verbatim>\<open>add_stereo\<close>) does nothing.
\<close>

definition CGRcore_compose :: "graph \<Rightarrow> graph \<Rightarrow> error + graph" where
  "CGRcore_compose m1 m2 =
     (let common = set (node_ids m1) \<inter> set (node_ids m2);
          h = empty_graph CGR
      in case compose_role Reagents m1 common h of
           Inl e \<Rightarrow> Inl e
         | Inr (h1, ext1) \<Rightarrow>
             (case compose_role Products m2 common h1 of
                Inl e \<Rightarrow> Inl e
              | Inr (h2, ext2) \<Rightarrow>
                  Inr (fix_data h2 (Some (ext1 \<union> ext2)) (Some common))))"

section \<open>Example entities\<close>

text \<open>
  The reagents and products graphs of the bond-union example: atoms 1, 2, 3 on both
  sides, a bond with \<^verbatim>\<open>s_bond=1\<close> between 1 and 2 in the reagents only, a bond with
  \<^verbatim>\<open>p_bond=2\<close> between 2 and 3 in the products only.  And a molecule of one atom.
\<close>

definition compose_reagents :: graph where
  "compose_reagents =
     \<lparr>kind = Molecule,
      node_list = [(1, [''element'' \<mapsto> Hv (HStr ''C''), ''s_charge'' \<mapsto> Hv (HInt 0)]),
                   (2, [''element'' \<mapsto> Hv (HStr ''C''), ''s_charge'' \<mapsto> Hv (HInt 0)]),
                   (3, [''element'' \<mapsto> Hv (HStr ''O''), ''s_charge'' \<mapsto> Hv (HInt 0)])],
      edge_list = [((1, 2), [''s_bond'' \<mapsto> Hv (HInt 1)])],
      meta = Map.empty\<rparr>"

definition compose_products :: graph where
  "compose_products =
     \<lparr>kind = CGR,
      node_list = [(1, [''element'' \<mapsto> Hv (HStr ''C''), ''p_charge'' \<mapsto> Hv (HInt 0)]),
                   (2, [''element'' \<mapsto> Hv (HStr ''C''), ''p_charge'' \<mapsto> Hv (HInt 0)]),
                   (3, [''element'' \<mapsto> Hv (HStr ''O''), ''p_charge'' \<mapsto> Hv (HInt 0)])],
      edge_list = [((2, 3), [''p_bond'' \<mapsto> Hv (HInt 2)])],
      meta = Map.empty\<rparr>"

definition lone_atom :: graph where
  "lone_atom =
     \<lparr>kind = Molecule,
      node_list = [(1, [''element'' \<mapsto> Hv (HStr ''C''), ''s_charge'' \<mapsto> Hv (HInt 0)])],
      edge_list = [],
      meta = Map.empty\<rparr>"

text \<open>
  A molecule and a CGR of one carbon atom, as \<^verbatim>\<open>add_atom('C', 0)\<close> builds them on an
  empty entity.
\<close>

definition mol_carbon :: attrs where
  "mol_carbon = [''element'' \<mapsto> Hv (HStr ''C''), ''s_charge'' \<mapsto> Hv (HInt 0),
                 ''mark'' \<mapsto> Hv (HStr ''0''), ''s_x'' \<mapsto> Hv (HInt 0), ''s_y'' \<mapsto> Hv (HInt 0),
                 ''s_z'' \<mapsto> Hv (HInt 0), ''map'' \<mapsto> Hv (HInt 1)]"

definition mol_one_atom :: graph where
  "mol_one_atom = \<lparr>kind = Molecule, node_list = [(1, mol_carbon)], edge_list = [], meta = Map.empty\<rparr>"

definition cgr_carbon :: attrs where
  "cgr_carbon = [''element'' \<mapsto> Hv (HStr ''C''), ''s_charge'' \<mapsto> Hv (HInt 0),
                 ''p_charge'' \<mapsto> Hv (HInt 0), ''mark'' \<mapsto> Hv (HStr ''0''),
                 ''s_x'' \<mapsto> Hv (HInt 0), ''s_y'' \<mapsto> Hv (HInt 0), ''s_z'' \<mapsto> Hv (HInt 0),
                 ''p_x'' \<mapsto> Hv (HInt 0), ''p_y'' \<mapsto> Hv (HInt 0), ''p_z'' \<mapsto> Hv (HInt 0),
                 ''map'' \<mapsto> Hv (HInt 1)]"

definition cgr_one_atom :: graph where
  "cgr_one_atom = \<lparr>kind = CGR, node_list = [(1, cgr_carbon)], edge_list = [], meta = Map.empty\<rparr>"

text \<open>
  Molecules for the hybridization deriver.  In the first two, carbon 1 has a triple bond
  to atom 2 and an aromatic bond to atom 3; they differ only in the order in which the
  two bonds were added.  In the third, atom 1 has a double, a triple and a single bond,
  the last one to a hydrogen.
\<close>

definition hyb_triple_first :: graph where
  "hyb_triple_first =
     \<lparr>kind = Molecule,
      node_list = [(1, [''element'' \<mapsto> Hv (HStr ''C''), ''s_charge'' \<mapsto> Hv (HInt 0)]),
                   (2, [''element'' \<mapsto> Hv (HStr ''C''), ''s_charge'' \<mapsto> Hv (HInt 0)]),
                   (3, [''element'' \<mapsto> Hv (HStr ''C''), ''s_charge'' \<mapsto> Hv (HInt 0)])],
      edge_list = [((1, 2), [''s_bond'' \<mapsto> Hv (HInt 3)]), ((1, 3), [''s_bond'' \<mapsto> Hv (HInt 4)])],
      meta = Map.empty\<rparr>"

definition hyb_aromatic_first :: graph where
  "hyb_aromatic_first =
     \<lparr>kind = Molecule,
      node_list = [(1, [''element'' \<mapsto> Hv (HStr ''C''), ''s_charge'' \<mapsto> Hv (HInt 0)]),
                   (2, [''element'' \<mapsto> Hv (HStr ''C''), ''s_charge'' \<mapsto> Hv (HInt 0)]),
                   (3, [''element'' \<mapsto> Hv (HStr ''C''), ''s_charge'' \<mapsto> Hv (HInt 0)])],
      edge_list = [((1, 3), [''s_bond'' \<mapsto> Hv (HInt 4)]), ((1, 2), [''s_bond'' \<mapsto> Hv (HInt 3)])],
      meta = Map.empty\<rparr>"

definition hyb_open_chain :: graph where
  "hyb_open_chain =
     \<lparr>kind = Molecule,
      node_list = [(1, [''element'' \<mapsto> Hv (HStr ''C''), ''s_charge'' \<mapsto> Hv (HInt 0)]),
                   (2, [''element'' \<mapsto> Hv (HStr ''C''), ''s_charge'' \<mapsto> Hv (HInt 0)]),
                   (3, [''element'' \<mapsto> Hv (HStr ''C''), ''s_charge'' \<mapsto> Hv (HInt 0)]),
                   (4, [''element'' \<mapsto> Hv (HStr ''H''), ''s_charge'' \<mapsto> Hv (HInt 0)])],
      edge_list = [((1, 2), [''s_bond'' \<mapsto> Hv (HInt 2)]), ((1, 3), [''s_bond'' \<mapsto> Hv (HInt 3)]),
                   ((1, 4), [''s_bond'' \<mapsto> Hv (HInt 1)])],
      meta = Map.empty\<rparr>"

text \<open>
  A molecule with two bonded atoms and a one-atom CGR on a disjoint id, for the union.
\<close>

definition union_left :: graph where
  "union_left =
     \<lparr>kind = Molecule,
      node_list = [(1, [''element'' \<mapsto> Hv (HStr ''C''), ''s_charge'' \<mapsto> Hv (HInt 0)]),
                   (2, [''element'' \<mapsto> Hv (HStr ''O''), ''s_charge'' \<mapsto> Hv (HInt 0)])],
      edge_list = [((1, 2), [''s_bond'' \<mapsto> Hv (HInt 2)])],
      meta = Map.empty\<rparr>"

definition union_right :: graph where
  "union_right =
     \<lparr>kind = CGR,
      node_list = [(3, [''element'' \<mapsto> Hv (HStr ''N''), ''s_charge'' \<mapsto> Hv (HInt 0),
                        ''p_charge'' \<mapsto> Hv (HInt 1)])],
      edge_list = [],
      meta = Map.empty\<rparr>"

text \<open>
  A CGR with four atoms: atom 1 changes its charge from 0 to 1, the bond between 2 and 3
  is the same on both sides, and the bond between 3 and 4 exists on the reagent side
  only.
\<close>

definition center_example :: graph where
  "center_example =
     \<lparr>kind = CGR,
      node_list = [(1, [''s_charge'' \<mapsto> Hv (HInt 0), ''p_charge'' \<mapsto> Hv (HInt 1)]),
                   (2, [''s_charge'' \<mapsto> Hv (HInt 0), ''p_charge'' \<mapsto> Hv (HInt 0)]),
                   (3, [''s_charge'' \<mapsto> Hv (HInt 0), ''p_charge'' \<mapsto> Hv (HInt 0)]),
                   (4, [''s_charge'' \<mapsto> Hv (HInt 0), ''p_charge'' \<mapsto> Hv (HInt 0)])],
      edge_list = [((2, 3), [''s_bond'' \<mapsto> Hv (HInt 1), ''p_bond'' \<mapsto> Hv (HInt 1)]),
                   ((3, 4), [''s_bond'' \<mapsto> Hv (HInt 1)])],
      meta = Map.empty\<rparr>"

text \<open>
  A molecule whose atoms 1 and 2 are bonded and whose atom 3 has no bond.
\<close>

definition env_pair :: graph where
  "env_pair =
     \<lparr>kind = Molecule,
      node_list = [(1, [''element'' \<mapsto> Hv (HStr ''C''), ''s_charge'' \<mapsto> Hv (HInt 0)]),
                   (2, [''element'' \<mapsto> Hv (HStr ''O''), ''s_charge'' \<mapsto> Hv (HInt 0)]),
                   (3, [''element'' \<mapsto> Hv (HStr ''N''), ''s_charge'' \<mapsto> Hv (HInt 0)])],
      edge_list = [((1, 2), [''s_bond'' \<mapsto> Hv (HInt 2)])],
      meta = Map.empty\<rparr>"

section \<open>Facts about the graph engine\<close>

lemma wf_atom_iff:
  "wf_graph g \<Longrightarrow> (n, a) \<in> set (node_list g) \<longleftrightarrow> atom g n = Some a"
  unfolding wf_graph_def atom_def node_ids_def by auto

lemma upsert_node_fresh:
  "n \<notin> fst ` set ns \<Longrightarrow> upsert_node n a ns = ns @ [(n, a)]"
  by (induction ns) auto

lemma upsert_node_present_empty:
  "n \<in> fst ` set ns \<Longrightarrow> upsert_node n Map.empty ns = ns"
  by (induction ns) force+

lemma same_edge_norm: "same_edge f e \<longleftrightarrow> norm_edge f = norm_edge e"
  unfolding same_edge_def norm_edge_def
  by (cases f; cases e) (auto simp: min_def max_def)

lemma upsert_edge_fresh:
  "norm_edge e \<notin> (\<lambda>x. norm_edge (fst x)) ` set es \<Longrightarrow> upsert_edge e a es = es @ [(e, a)]"
  by (induction es) (auto simp: same_edge_norm)

lemma add_nodes_from_fresh:
  "distinct (map fst xs) \<Longrightarrow> fst ` set xs \<inter> fst ` set (node_list g) = {} \<Longrightarrow>
   add_nodes_from xs g = g\<lparr>node_list := node_list g @ xs\<rparr>"
proof (induction xs arbitrary: g)
  case Nil
  then show ?case by (simp add: add_nodes_from_def)
next
  case (Cons x xs)
  obtain n a where x: "x = (n, a)" by (cases x)
  have fresh: "n \<notin> fst ` set (node_list g)" using Cons.prems(2) x by auto
  have step: "add_node n a g = g\<lparr>node_list := node_list g @ [(n, a)]\<rparr>"
    by (simp add: add_node_def upsert_node_fresh[OF fresh])
  have d: "distinct (map fst xs)" using Cons.prems(1) by simp
  have disj: "fst ` set xs \<inter> fst ` set (node_list (add_node n a g)) = {}"
    using Cons.prems x by (auto simp: step)
  have "add_nodes_from (x # xs) g = add_nodes_from xs (add_node n a g)"
    by (simp add: add_nodes_from_def x)
  also have "\<dots> = (add_node n a g)\<lparr>node_list := node_list (add_node n a g) @ xs\<rparr>"
    by (rule Cons.IH[OF d disj])
  also have "\<dots> = g\<lparr>node_list := node_list g @ x # xs\<rparr>"
    by (simp add: step x)
  finally show ?case .
qed

lemma add_edges_from_fresh:
  "distinct (map (\<lambda>x. norm_edge (fst x)) es) \<Longrightarrow>
   (\<lambda>x. norm_edge (fst x)) ` set es \<inter> (\<lambda>x. norm_edge (fst x)) ` set (edge_list g) = {} \<Longrightarrow>
   \<forall>x \<in> set es. fst (fst x) \<in> fst ` set (node_list g) \<and> snd (fst x) \<in> fst ` set (node_list g) \<Longrightarrow>
   add_edges_from es g = g\<lparr>edge_list := edge_list g @ es\<rparr>"
proof (induction es arbitrary: g)
  case Nil
  then show ?case by (simp add: add_edges_from_def)
next
  case (Cons x es)
  obtain u v a where x: "x = ((u, v), a)" by (metis surj_pair)
  have fresh: "norm_edge (u, v) \<notin> (\<lambda>x. norm_edge (fst x)) ` set (edge_list g)"
    using Cons.prems(2) x by auto
  have uv: "u \<in> fst ` set (node_list g)" "v \<in> fst ` set (node_list g)"
    using Cons.prems(3) x by auto
  have step: "add_edge u v a g = g\<lparr>edge_list := edge_list g @ [((u, v), a)]\<rparr>"
    by (simp add: add_edge_def upsert_edge_fresh[OF fresh] upsert_node_present_empty uv)
  have d: "distinct (map (\<lambda>x. norm_edge (fst x)) es)" using Cons.prems(1) by simp
  have disj: "(\<lambda>x. norm_edge (fst x)) ` set es \<inter>
              (\<lambda>x. norm_edge (fst x)) ` set (edge_list (add_edge u v a g)) = {}"
    using Cons.prems(1,2) x by (auto simp: step)
  have ends: "\<forall>x \<in> set es. fst (fst x) \<in> fst ` set (node_list (add_edge u v a g)) \<and>
                          snd (fst x) \<in> fst ` set (node_list (add_edge u v a g))"
    using Cons.prems(3) by (simp add: step)
  have "add_edges_from (x # es) g = add_edges_from es (add_edge u v a g)"
    by (simp add: add_edges_from_def x)
  also have "\<dots> = (add_edge u v a g)\<lparr>edge_list := edge_list (add_edge u v a g) @ es\<rparr>"
    by (rule Cons.IH[OF d disj ends])
  also have "\<dots> = g\<lparr>edge_list := edge_list g @ x # es\<rparr>"
    by (simp add: step x)
  finally show ?case .
qed

lemma wf_edge_ends:
  "wf_graph g \<Longrightarrow> x \<in> set (edge_list g) \<Longrightarrow>
   fst (fst x) \<in> set (node_ids g) \<and> snd (fst x) \<in> set (node_ids g)"
  unfolding wf_graph_def by (auto simp: list_all_iff)

lemma norm_edge_ends: "norm_edge e = norm_edge f \<Longrightarrow> fst e = fst f \<or> fst e = snd f"
  unfolding norm_edge_def by (cases e; cases f) (auto simp: min_def max_def split: if_splits)

section \<open>Compose and the missing stereo attribute\<close>

lemma common_edges_loop_result:
  "common_edges_loop g pop es (ext, h) =
     (if \<exists>x \<in> set es. truthy (py_get (snd x) pop) then Inl AttributeError
      else Inr (ext \<union> set (concat (map (\<lambda>e. [fst (fst e), snd (fst e)]) es)), h))"
proof (induction es arbitrary: ext h)
  case Nil
  then show ?case by simp
next
  case (Cons x es)
  obtain n m a where x: "x = ((n, m), a)" by (metis surj_pair)
  show ?case unfolding x
    by (simp add: Let_def stereo_def Cons.IH) blast
qed

lemma uniq_edges_loop_result:
  "uniq_edges_loop g es h = (if es = [] then Inr h else Inl AttributeError)"
proof (cases es)
  case Nil
  then show ?thesis by simp
next
  case (Cons x xs)
  obtain n m a where x: "x = ((n, m), a)" by (metis surj_pair)
  show ?thesis unfolding Cons x by (simp add: Let_def stereo_def)
qed

lemma compose_role_result:
  "compose_role i g common h =
     (if (\<exists>x \<in> set (edges_of g common). truthy (py_get (snd x) (pd_edge (popdict_of i))))
         \<or> edges_of g (set (node_ids g) - (common \<union> endpoints_of g common)) \<noteq> []
      then Inl AttributeError
      else Inr (copy_nodes g (set (node_ids g) - (common \<union> endpoints_of g common)) (\<lambda>k. True)
                 (copy_nodes g (endpoints_of g common - common) (\<lambda>k. k \<notin> set (pd_ext_node (popdict_of i)))
                   (copy_nodes g common (\<lambda>k. k \<in> set (pd_node (popdict_of i))) h)),
                common \<union> endpoints_of g common))"
  unfolding compose_role_def Let_def common_edges_loop_result uniq_edges_loop_result endpoints_of_def
  by (auto simp: Un_Diff)


lemma edges_of_nonempty:
  "edges_of g S \<noteq> [] \<longleftrightarrow> (\<exists>n \<in> S. adj g n \<noteq> [])"
  unfolding edges_of_def adj_def touches_def
  by (auto simp: filter_empty_conv)

text \<open>
  Claim C2.  Let \<open>common\<close> be the atoms present in both inputs.  \<^verbatim>\<open>compose\<close> raises
  \<^verbatim>\<open>AttributeError\<close> (from reading \<^verbatim>\<open>g.stereo\<close>) exactly when some edge incident to
  a common atom carries a truthy bond mark of the role (\<^verbatim>\<open>s_bond\<close> in the
  reagents argument, \<^verbatim>\<open>p_bond\<close> in the products argument; the source tests
  \<^verbatim>\<open>if bond:\<close>, and \<^verbatim>\<open>add_bond\<close> stores truthy marks only), or some role-local atom
  (one that is neither common nor an endpoint of an edge at a common atom) has an
  incident edge.  On every other input it returns a CGR, so it completes only on
  inputs with no such edges.
\<close>

theorem compose_stereo_attribute_error:
  assumes common: "common = set (node_ids m1) \<inter> set (node_ids m2)"
  shows "(CGRcore_compose m1 m2 = Inl AttributeError) =
           ((\<exists>x \<in> set (edges_of m1 common). truthy (py_get (snd x) ''s_bond'')) \<or>
            (\<exists>n \<in> set (node_ids m1) - (common \<union> endpoints_of m1 common). adj m1 n \<noteq> []) \<or>
            (\<exists>x \<in> set (edges_of m2 common). truthy (py_get (snd x) ''p_bond'')) \<or>
            (\<exists>n \<in> set (node_ids m2) - (common \<union> endpoints_of m2 common). adj m2 n \<noteq> []))
       \<and> ((\<exists>h. CGRcore_compose m1 m2 = Inr h) =
           (\<not> ((\<exists>x \<in> set (edges_of m1 common). truthy (py_get (snd x) ''s_bond'')) \<or>
               (\<exists>n \<in> set (node_ids m1) - (common \<union> endpoints_of m1 common). adj m1 n \<noteq> []) \<or>
               (\<exists>x \<in> set (edges_of m2 common). truthy (py_get (snd x) ''p_bond'')) \<or>
               (\<exists>n \<in> set (node_ids m2) - (common \<union> endpoints_of m2 common). adj m2 n \<noteq> []))))"
proof -
  define r1 where "r1 \<longleftrightarrow> (\<exists>x \<in> set (edges_of m1 common). truthy (py_get (snd x) ''s_bond'')) \<or>
            (\<exists>n \<in> set (node_ids m1) - (common \<union> endpoints_of m1 common). adj m1 n \<noteq> [])"
  define r2 where "r2 \<longleftrightarrow> (\<exists>x \<in> set (edges_of m2 common). truthy (py_get (snd x) ''p_bond'')) \<or>
            (\<exists>n \<in> set (node_ids m2) - (common \<union> endpoints_of m2 common). adj m2 n \<noteq> [])"
  have role1: "\<And>h. (compose_role Reagents m1 common h = Inl AttributeError) = r1"
    and ok1: "\<And>h. \<not> r1 \<Longrightarrow> \<exists>h' ext. compose_role Reagents m1 common h = Inr (h', ext)"
    unfolding r1_def compose_role_result edges_of_nonempty by simp_all
  have role2: "\<And>h. (compose_role Products m2 common h = Inl AttributeError) = r2"
    and ok2: "\<And>h. \<not> r2 \<Longrightarrow> \<exists>h' ext. compose_role Products m2 common h = Inr (h', ext)"
    unfolding r2_def compose_role_result edges_of_nonempty by simp_all
  have res: "CGRcore_compose m1 m2 = Inl AttributeError" if "r1 \<or> r2"
  proof (cases r1)
    case True
    then show ?thesis using role1 by (simp add: CGRcore_compose_def Let_def flip: common)
  next
    case False
    then have r2 using that by simp
    from ok1[OF False] obtain h' ext where
      "compose_role Reagents m1 common (empty_graph CGR) = Inr (h', ext)" by blast
    then show ?thesis using role2 \<open>r2\<close> by (simp add: CGRcore_compose_def Let_def flip: common)
  qed
  have fin: "\<exists>h. CGRcore_compose m1 m2 = Inr h" if "\<not> (r1 \<or> r2)"
  proof -
    from that have n1: "\<not> r1" and n2: "\<not> r2" by simp_all
    from ok1[OF n1] obtain h1 ext1 where
      c1: "compose_role Reagents m1 common (empty_graph CGR) = Inr (h1, ext1)" by blast
    from ok2[OF n2] obtain h2 ext2 where
      c2: "compose_role Products m2 common h1 = Inr (h2, ext2)" by blast
    show ?thesis using c1 c2 by (simp add: CGRcore_compose_def Let_def flip: common)
  qed
  have "(CGRcore_compose m1 m2 = Inl AttributeError) = (r1 \<or> r2)"
    using res fin by (cases "r1 \<or> r2") auto
  moreover have "(\<exists>h. CGRcore_compose m1 m2 = Inr h) = (\<not> (r1 \<or> r2))"
    using res fin by (cases "r1 \<or> r2") auto
  ultimately show ?thesis unfolding r1_def r2_def by (simp only: disj_assoc)
qed

theorem compose_stereo_attribute_error_witness:
  "{1, 2, 3} = set (node_ids compose_reagents) \<inter> set (node_ids compose_products)
   \<and> (\<exists>x \<in> set (edges_of compose_reagents {1, 2, 3}). truthy (py_get (snd x) ''s_bond''))
   \<and> CGRcore_compose compose_reagents compose_products = Inl AttributeError
   \<and> {1} = set (node_ids lone_atom) \<inter> set (node_ids lone_atom)
   \<and> (\<exists>h. CGRcore_compose lone_atom lone_atom = Inr h)"
proof -
  have c: "{1, 2, 3} = set (node_ids compose_reagents) \<inter> set (node_ids compose_products)"
    by (simp add: node_ids_def compose_reagents_def compose_products_def)
  have t: "\<exists>x \<in> set (edges_of compose_reagents {1, 2, 3}). truthy (py_get (snd x) ''s_bond'')"
    by (simp add: edges_of_def compose_reagents_def py_get_def)
  have bad: "CGRcore_compose compose_reagents compose_products = Inl AttributeError"
    using compose_stereo_attribute_error[OF c] t by blast
  have c1: "{1} = set (node_ids lone_atom) \<inter> set (node_ids lone_atom)"
    by (simp add: node_ids_def lone_atom_def)
  have no_edges: "edge_list lone_atom = []" by (simp add: lone_atom_def)
  have good: "\<exists>h. CGRcore_compose lone_atom lone_atom = Inr h"
    using compose_stereo_attribute_error[OF c1] by (simp add: edges_of_def adj_def no_edges)
  show ?thesis using c t bad c1 good by blast
qed

text \<open>
  Claim C1.  On the bond-union example the claim expects a CGR with an edge (1,2)
  carrying \<^verbatim>\<open>s_bond=1\<close> and an edge (2,3) carrying \<^verbatim>\<open>p_bond=2\<close>.  The source adds the
  edge (1,2) to the result and then reads \<^verbatim>\<open>g.stereo\<close>: the call raises
  \<^verbatim>\<open>AttributeError\<close> and returns no CGR.
\<close>

theorem compose_bond_union_example_raises:
  "CGRcore_compose compose_reagents compose_products = Inl AttributeError"
proof -
  have c: "set (node_ids compose_reagents) \<inter> set (node_ids compose_products) = {1, 2, 3}"
    by (simp add: node_ids_def compose_reagents_def compose_products_def)
  have e: "edges_of compose_reagents {1, 2, 3} = [((1, 2), [''s_bond'' \<mapsto> Hv (HInt 1)])]"
    by (simp add: edges_of_def compose_reagents_def)
  have "compose_role Reagents compose_reagents {1, 2, 3} (empty_graph CGR) = Inl AttributeError"
    unfolding compose_role_result e by (simp add: py_get_def)
  then show ?thesis by (simp add: CGRcore_compose_def Let_def c)
qed

section \<open>Normalisation and the serialization round trip\<close>

lemma mol_one_atom_built:
  "mol_add_atom_default (empty_graph Molecule) (Hv (HStr ''C'')) (Hv (HInt 0)) = Inr mol_one_atom"
  by (simp add: mol_add_atom_default_def mol_add_atom_def new_map_def max_node_def node_ids_def
        empty_graph_def add_node_def mol_one_atom_def mol_carbon_def)

lemma cgr_one_atom_built:
  "cgr_add_atom_default (empty_graph CGR) (Hv (HStr ''C'')) (Hv (HInt 0)) = Inr cgr_one_atom"
  by (simp add: cgr_add_atom_default_def cgr_add_atom_def new_map_def max_node_def node_ids_def
        empty_graph_def add_node_def cgr_one_atom_def cgr_carbon_def default_to_def)

lemma cgr_carbon_renewed: "cgr_attr_renew cgr_carbon cgr_node_marks = [''sp_charge'' \<mapsto> Hv (HInt 0)]"
  by (simp add: cgr_attr_renew_def cgr_node_marks_def sp_triple_def cgr_renew_mark_def py_get_def
        cgr_carbon_def)

lemma sp_only_renewed: "cgr_attr_renew [''sp_charge'' \<mapsto> Hv (HInt 0)] cgr_node_marks = Map.empty"
  by (simp add: cgr_attr_renew_def cgr_node_marks_def sp_triple_def cgr_renew_mark_def py_get_def)

lemma cgr_one_atom_fixed:
  "fix_data cgr_one_atom None None =
     \<lparr>kind = CGR, node_list = [(1, [''sp_charge'' \<mapsto> Hv (HInt 0)])], edge_list = [], meta = Map.empty\<rparr>"
  by (simp add: fix_data_def cgr_one_atom_def in_bunch_def renew_node_def cgr_carbon_renewed)

lemma cgr_one_atom_fixed_twice:
  "fix_data (fix_data cgr_one_atom None None) None None =
     \<lparr>kind = CGR, node_list = [(1, Map.empty)], edge_list = [], meta = Map.empty\<rparr>"
  unfolding cgr_one_atom_fixed
  by (simp add: fix_data_def in_bunch_def renew_node_def sp_only_renewed)

text \<open>
  Claim C4 at a CGR of one atom with \<^verbatim>\<open>s_charge = p_charge = 0\<close>.  The scalar
  branches of \<^verbatim>\<open>CGRContainer._attr_renew\<close> write the combined key only, so the first
  \<^verbatim>\<open>fix_data\<close> leaves the atom with \<^verbatim>\<open>{sp_charge: 0}\<close>; the second one reads
  \<^verbatim>\<open>s_charge\<close> and \<^verbatim>\<open>p_charge\<close>, finds neither and leaves the atom with an empty
  mapping.  Applying \<^verbatim>\<open>fix_data\<close> twice differs from applying it once.
\<close>

theorem cgr_fix_data_twice_differs:
  "atom_attr cgr_one_atom 1 ''s_charge'' = Some (Hv (HInt 0))
   \<and> atom_attr (fix_data cgr_one_atom None None) 1 ''s_charge'' = None
   \<and> atom_attr (fix_data cgr_one_atom None None) 1 ''sp_charge'' = Some (Hv (HInt 0))
   \<and> atom_attr (fix_data (fix_data cgr_one_atom None None) None None) 1 ''sp_charge'' = None
   \<and> fix_data (fix_data cgr_one_atom None None) None None \<noteq> fix_data cgr_one_atom None None"
proof -
  have a: "atom_attr cgr_one_atom 1 ''s_charge'' = Some (Hv (HInt 0))"
    by (simp add: atom_attr_def atom_def cgr_one_atom_def cgr_carbon_def)
  have b: "atom_attr (fix_data cgr_one_atom None None) 1 ''s_charge'' = None"
    "atom_attr (fix_data cgr_one_atom None None) 1 ''sp_charge'' = Some (Hv (HInt 0))"
    unfolding cgr_one_atom_fixed by (simp_all add: atom_attr_def atom_def)
  have c: "atom_attr (fix_data (fix_data cgr_one_atom None None) None None) 1 ''sp_charge'' = None"
    unfolding cgr_one_atom_fixed_twice by (simp add: atom_attr_def atom_def)
  have d: "fix_data (fix_data cgr_one_atom None None) None None \<noteq> fix_data cgr_one_atom None None"
    using b(2) c by (metis option.distinct(1))
  show ?thesis using a b c d by blast
qed

lemma mol_one_atom_pickle:
  "pickle mol_one_atom =
     \<lparr>pk_nodes = [(1, mol_carbon |` set node_s)], pk_links = [], pk_meta = Map.empty, s_only = True\<rparr>"
  by (simp add: pickle_def mol_one_atom_def add_nodes_from_def add_edges_from_def add_node_def
        empty_graph_def)

lemma cgr_one_atom_pickle:
  "pickle cgr_one_atom =
     \<lparr>pk_nodes = [(1, cgr_carbon |` set node_sp)], pk_links = [], pk_meta = Map.empty, s_only = False\<rparr>"
  by (simp add: pickle_def cgr_one_atom_def add_nodes_from_def add_edges_from_def add_node_def
        empty_graph_def)

lemma py_get_restrict: "k \<in> S \<Longrightarrow> py_get (a |` S) k = py_get a k"
  by (simp add: py_get_def)

lemma mol_attr_renew_restrict:
  "set marks \<subseteq> S \<Longrightarrow> mol_attr_renew (a |` S) marks = mol_attr_renew a marks"
  unfolding mol_attr_renew_def
  by (rule fold_cong) (auto simp: py_get_restrict)

lemma cgr_renew_mark_restrict:
  assumes "fst m \<in> S" and "fst (snd m) \<in> S"
  shows "cgr_renew_mark (a |` S) m = cgr_renew_mark a m"
proof -
  obtain s p sp where m: "m = (s, p, sp)" by (cases m)
  have s: "py_get (a |` S) s = py_get a s" and p: "py_get (a |` S) p = py_get a p"
    using assms by (simp_all add: m py_get_restrict)
  show ?thesis unfolding m by (rule ext) (simp only: cgr_renew_mark_def prod.case s p)
qed

lemma cgr_attr_renew_restrict:
  "\<forall>m \<in> set marks. fst m \<in> S \<and> fst (snd m) \<in> S \<Longrightarrow>
   cgr_attr_renew (a |` S) marks = cgr_attr_renew a marks"
  unfolding cgr_attr_renew_def
  by (rule fold_cong) (simp_all add: cgr_renew_mark_restrict)

lemma mol_marks_in_schema: "set mol_node_marks \<subseteq> set node_s"
  by (simp add: node_s_def)

lemma cgr_marks_in_schema: "\<forall>m \<in> set cgr_node_marks. fst m \<in> set node_sp \<and> fst (snd m) \<in> set node_sp"
  by (simp add: cgr_node_marks_def sp_triple_def node_sp_def)

lemma mol_carbon_renewed: "mol_attr_renew mol_carbon mol_node_marks = [''s_charge'' \<mapsto> Hv (HInt 0)]"
  by (simp add: mol_attr_renew_def py_get_def mol_node_marks_def mol_carbon_def)

lemma mol_carbon_pickled_renewed:
  "mol_attr_renew (mol_carbon |` set node_s) mol_node_marks = [''s_charge'' \<mapsto> Hv (HInt 0)]"
  by (simp only: mol_attr_renew_restrict[OF mol_marks_in_schema] mol_carbon_renewed)

lemma cgr_carbon_pickled_renewed:
  "cgr_attr_renew (cgr_carbon |` set node_sp) cgr_node_marks = [''sp_charge'' \<mapsto> Hv (HInt 0)]"
  by (simp only: cgr_attr_renew_restrict[OF cgr_marks_in_schema] cgr_carbon_renewed)

lemma mol_one_atom_pickled:
  "unpickle (pickle mol_one_atom) =
     \<lparr>kind = Molecule, node_list = [(1, [''s_charge'' \<mapsto> Hv (HInt 0)])], edge_list = [], meta = Map.empty\<rparr>"
  unfolding mol_one_atom_pickle
  by (simp add: unpickle_def add_nodes_from_def add_edges_from_def add_node_def
        empty_graph_def fix_data_def in_bunch_def renew_node_def mol_carbon_pickled_renewed)

lemma cgr_one_atom_pickled:
  "unpickle (pickle cgr_one_atom) =
     \<lparr>kind = CGR, node_list = [(1, [''sp_charge'' \<mapsto> Hv (HInt 0)])], edge_list = [], meta = Map.empty\<rparr>"
  unfolding cgr_one_atom_pickle
  by (simp add: unpickle_def add_nodes_from_def add_edges_from_def add_node_def
        empty_graph_def fix_data_def in_bunch_def renew_node_def cgr_carbon_pickled_renewed)

text \<open>
  Claim C3 at the one-atom molecule and the one-atom CGR, both built from
  schema-visible attributes.  \<^verbatim>\<open>pickle\<close> keeps the schema keys, and \<^verbatim>\<open>unpickle\<close> then
  runs \<^verbatim>\<open>fix_data\<close>, which rebuilds every mapping from \<^verbatim>\<open>_node_marks\<close> alone: the
  molecule's atom loses its base keys (\<^verbatim>\<open>element\<close> among them) and the CGR's atom
  loses its base keys and its \<^verbatim>\<open>s_charge\<close> and \<^verbatim>\<open>p_charge\<close>.
\<close>

theorem pickle_round_trip_loses_schema_keys:
  "''element'' \<in> set node_s \<and> ''element'' \<in> set node_sp \<and> ''s_charge'' \<in> set node_sp
   \<and> atom_attr mol_one_atom 1 ''element'' = Some (Hv (HStr ''C''))
   \<and> atom_attr (unpickle (pickle mol_one_atom)) 1 ''element'' = None
   \<and> atom_attr cgr_one_atom 1 ''element'' = Some (Hv (HStr ''C''))
   \<and> atom_attr cgr_one_atom 1 ''s_charge'' = Some (Hv (HInt 0))
   \<and> atom_attr (unpickle (pickle cgr_one_atom)) 1 ''element'' = None
   \<and> atom_attr (unpickle (pickle cgr_one_atom)) 1 ''s_charge'' = None"
proof -
  have k: "''element'' \<in> set node_s \<and> ''element'' \<in> set node_sp \<and> ''s_charge'' \<in> set node_sp"
    by (simp add: node_s_def node_sp_def node_base_def mol_node_marks_def cgr_node_marks_def sp_triple_def)
  have m: "atom_attr mol_one_atom 1 ''element'' = Some (Hv (HStr ''C''))"
    by (simp add: atom_attr_def atom_def mol_one_atom_def mol_carbon_def)
  have c: "atom_attr cgr_one_atom 1 ''element'' = Some (Hv (HStr ''C''))"
    "atom_attr cgr_one_atom 1 ''s_charge'' = Some (Hv (HInt 0))"
    by (simp_all add: atom_attr_def atom_def cgr_one_atom_def cgr_carbon_def)
  have um: "atom_attr (unpickle (pickle mol_one_atom)) 1 ''element'' = None"
    unfolding mol_one_atom_pickled by (simp add: atom_attr_def atom_def)
  have uc: "atom_attr (unpickle (pickle cgr_one_atom)) 1 ''element'' = None"
    "atom_attr (unpickle (pickle cgr_one_atom)) 1 ''s_charge'' = None"
    unfolding cgr_one_atom_pickled by (simp_all add: atom_attr_def atom_def)
  show ?thesis using k m c um uc by blast
qed

section \<open>Charges and state marks after the public operations\<close>

lemma map_of_upsert_node:
  "map_of (upsert_node n a ns) =
     (map_of ns)(n \<mapsto> (case map_of ns n of None \<Rightarrow> a | Some b \<Rightarrow> b ++ a))"
  by (induction ns) (auto simp: fun_eq_iff)

lemma atom_add_node:
  "atom (add_node n a g) m =
     (if m = n then Some (case atom g n of None \<Rightarrow> a | Some b \<Rightarrow> b ++ a) else atom g m)"
  by (simp add: atom_def add_node_def map_of_upsert_node)

lemma node_ids_upsert_node:
  "map fst (upsert_node n a ns) = (if n \<in> set (map fst ns) then map fst ns else map fst ns @ [n])"
  by (induction ns) (auto split: if_splits)

lemma node_ids_add_node: "set (node_ids (add_node n a g)) = insert n (set (node_ids g))"
  unfolding node_ids_def add_node_def by (auto simp: node_ids_upsert_node)

lemma atom_None_iff: "atom g n = None \<longleftrightarrow> n \<notin> set (node_ids g)"
  by (simp add: atom_def node_ids_def map_of_eq_None_iff)

lemma max_node_ge: "n \<in> set (node_ids g) \<Longrightarrow> n \<le> max_node g"
proof -
  assume n: "n \<in> set (node_ids g)"
  then obtain x xs where ids: "node_ids g = x # xs" by (cases "node_ids g") auto
  have "max_node g = Max (set (x # xs))"
    using Max.set_eq_fold[of x xs] by (simp add: max_node_def ids)
  then show ?thesis using n ids by simp
qed

lemma new_map_fresh: "new_map g map_opt = Inr m \<Longrightarrow> m \<notin> set (node_ids g)"
proof (cases map_opt)
  case None
  assume "new_map g map_opt = Inr m"
  then have "m = max_node g + 1" using None by (simp add: new_map_def)
  then show ?thesis using max_node_ge[of m g] by auto
next
  case (Some k)
  assume "new_map g map_opt = Inr m"
  then show ?thesis using Some by (simp add: new_map_def split: if_splits)
qed

lemma mol_attr_renew_fold:
  "fold (\<lambda>s new_attr. let ls = py_get attr s in
             if ls \<noteq> Hv HNone then new_attr(s \<mapsto> ls) else new_attr) marks m k =
     (if k \<in> set marks \<and> py_get attr k \<noteq> Hv HNone then Some (py_get attr k) else m k)"
  by (induction marks arbitrary: m) (auto simp: Let_def)

lemma mol_attr_renew_lookup:
  "mol_attr_renew attr marks k =
     (if k \<in> set marks \<and> py_get attr k \<noteq> Hv HNone then Some (py_get attr k) else None)"
  unfolding mol_attr_renew_def mol_attr_renew_fold by simp

lemma mol_attr_renew_idem:
  "mol_attr_renew (mol_attr_renew attr marks) marks = mol_attr_renew attr marks"
  by (rule ext) (simp add: mol_attr_renew_lookup py_get_def)

lemma map_of_map_bunch:
  "map_of (map (\<lambda>(m, a). if P m then (m, f a) else (m, a)) xs) n =
     (if P n then map_option f (map_of xs n) else map_of xs n)"
  by (induction xs) auto

lemma atom_fix_data:
  "atom (fix_data g nodes_bunch edges_bunch) n =
     (if in_bunch nodes_bunch n then map_option (renew_node (kind g)) (atom g n) else atom g n)"
  by (simp add: atom_def fix_data_def map_of_map_bunch)

text \<open>On a Molecule entity \<^verbatim>\<open>fix_data\<close> is idempotent, for every choice of bunches.\<close>

lemma mol_fix_data_idempotent:
  assumes "kind g = Molecule"
  shows "fix_data (fix_data g nodes_bunch edges_bunch) nodes_bunch edges_bunch =
         fix_data g nodes_bunch edges_bunch"
proof -
  have n: "renew_node Molecule (renew_node Molecule a) = renew_node Molecule a" for a
    by (simp add: renew_node_def mol_attr_renew_idem)
  have e: "renew_edge Molecule (renew_edge Molecule a) = renew_edge Molecule a" for a
    by (simp add: renew_edge_def mol_attr_renew_idem)
  show ?thesis
    unfolding fix_data_def using assms
    by (auto simp: n e intro!: graph.equality)
qed


lemma atom_attr_add_node_set:
  "label k = Some v \<Longrightarrow> atom_attr (add_node i label g) n k = (if n = i then Some v else atom_attr g n k)"
  by (simp add: atom_attr_def atom_add_node split: option.splits)

lemma atom_attr_add_node_keep:
  "label k = None \<Longrightarrow> atom_attr (add_node i label g) n k = atom_attr g n k"
  by (simp add: atom_attr_def atom_add_node map_add_def split: option.splits)

lemma query_marks_loop_sets:
  assumes lab: "\<And>g i label. lab g i = Inr label \<Longrightarrow> label k = Some v"
  shows "query_marks_loop lab ids g = Inr g' \<Longrightarrow> n \<in> set ids \<or> atom_attr g n k = Some v \<Longrightarrow>
         atom_attr g' n k = Some v"
proof (induction ids arbitrary: g)
  case Nil
  then show ?case by simp
next
  case (Cons i rest)
  from Cons.prems(1) obtain label where l: "lab g i = Inr label"
    and r: "query_marks_loop lab rest (add_node i label g) = Inr g'"
    by (auto split: sum.splits)
  have lk: "label k = Some v" by (rule lab[OF l])
  have "n \<in> set rest \<or> atom_attr (add_node i label g) n k = Some v"
    using Cons.prems(2) by (auto simp: atom_attr_add_node_set[of label k v, OF lk])
  then show ?case by (rule Cons.IH[OF r])
qed

lemma query_marks_loop_keeps:
  assumes lab: "\<And>g i label. lab g i = Inr label \<Longrightarrow> label k = None"
  shows "query_marks_loop lab ids g = Inr g' \<Longrightarrow> atom_attr g' n k = atom_attr g n k"
proof (induction ids arbitrary: g)
  case Nil
  then show ?case by simp
next
  case (Cons i rest)
  from Cons.prems(1) obtain label where l: "lab g i = Inr label"
    and r: "query_marks_loop lab rest (add_node i label g) = Inr g'"
    by (auto split: sum.splits)
  have lk: "label k = None" by (rule lab[OF l])
  show ?case using Cons.IH[OF r] by (simp add: atom_attr_add_node_keep[of label k, OF lk])
qed

lemma mol_query_label_p:
  "mol_query_label g i = Inr label \<Longrightarrow>
   label ''p_hyb'' = Some (Hv (HInt 1)) \<and> label ''p_neighbors'' = Some (Hv (HInt 0))"
  by (auto simp: mol_query_label_def split: sum.splits)

lemma cgr_query_label_charge:
  "cgr_query_label g i = Inr label \<Longrightarrow> label ''s_charge'' = None \<and> label ''p_charge'' = None"
  by (auto simp: cgr_query_label_def split: sum.splits)

lemma mol_marks_not_p: "k \<in> set mol_node_marks \<Longrightarrow> take 2 k \<noteq> ''p_''"
  by (auto simp: mol_node_marks_def)

text \<open>
  Claim C5, as stated, fails: \<^verbatim>\<open>MoleculeContainer.reset_query_marks\<close> starts every
  label from \<^verbatim>\<open>dict(s_hyb=1, p_hyb=1, s_neighbors=0, p_neighbors=0)\<close> and updates the
  atom with it, so after it the atom of a plain molecule carries the \<^verbatim>\<open>p_\<close>-prefixed
  marks \<^verbatim>\<open>p_hyb\<close> and \<^verbatim>\<open>p_neighbors\<close>.
\<close>

theorem molecule_query_marks_counterexample:
  "kind mol_one_atom = Molecule
   \<and> atom_attr mol_one_atom 1 ''p_hyb'' = None
   \<and> result_attr (reset_query_marks mol_one_atom) 1 ''p_hyb'' = Some (Hv (HInt 1))
   \<and> result_attr (reset_query_marks mol_one_atom) 1 ''p_neighbors'' = Some (Hv (HInt 0))
   \<and> take 2 ''p_hyb'' = ''p_''"
  by (simp add: mol_one_atom_def mol_carbon_def reset_query_marks_def mol_reset_query_marks_def
        node_ids_def mol_query_label_def adj_def result_attr_def atom_attr_def atom_def add_node_def)

text \<open>
  Claim C5, amended.  \<^verbatim>\<open>CGRContainer.add_atom\<close> gives the new atom both \<^verbatim>\<open>s_charge\<close>
  and \<^verbatim>\<open>p_charge\<close>, the latter equal to the former when no product charge is passed,
  and leaves the other atoms as they are; \<^verbatim>\<open>reset_query_marks\<close> on a CGR keeps every
  atom's \<^verbatim>\<open>s_charge\<close> and \<^verbatim>\<open>p_charge\<close>.  On a plain molecule, \<^verbatim>\<open>add_atom\<close> gives the
  new atom no \<^verbatim>\<open>p_\<close>-prefixed key and \<^verbatim>\<open>fix_data\<close> leaves none on any atom it
  normalises, but \<^verbatim>\<open>reset_query_marks\<close> writes \<^verbatim>\<open>p_hyb=1\<close> and \<^verbatim>\<open>p_neighbors=0\<close> onto
  every atom.
\<close>

theorem charge_and_state_marks_after_operations:
  "(cgr_add_atom g element s_charge p_charge map_opt mark s_x s_y s_z p_x p_y p_z = Inr g1 \<longrightarrow>
      (\<exists>n. n \<notin> set (node_ids g)
          \<and> atom_attr g1 n ''s_charge'' = Some s_charge
          \<and> atom_attr g1 n ''p_charge'' = Some (if p_charge = Hv HNone then s_charge else p_charge)
          \<and> (\<forall>m. m \<noteq> n \<longrightarrow> atom g1 m = atom g m)))
   \<and> (kind g = CGR \<and> reset_query_marks g = Inr g2 \<longrightarrow>
        atom_attr g2 n ''s_charge'' = atom_attr g n ''s_charge'' \<and>
        atom_attr g2 n ''p_charge'' = atom_attr g n ''p_charge'')
   \<and> (mol_add_atom g element s_charge map_opt mark x y z = Inr g3 \<longrightarrow>
      (\<exists>n. n \<notin> set (node_ids g)
          \<and> atom_attr g3 n ''s_charge'' = Some s_charge
          \<and> (\<forall>k. atom_attr g3 n k \<noteq> None \<longrightarrow> take 2 k \<noteq> ''p_'')
          \<and> (\<forall>m. m \<noteq> n \<longrightarrow> atom g3 m = atom g m)))
   \<and> (kind g = Molecule \<and> in_bunch nodes_bunch n \<and>
        atom_attr (fix_data g nodes_bunch edges_bunch) n k \<noteq> None \<longrightarrow> take 2 k \<noteq> ''p_'')
   \<and> (kind g = Molecule \<and> reset_query_marks g = Inr g4 \<and> n \<in> set (node_ids g) \<longrightarrow>
        atom_attr g4 n ''p_hyb'' = Some (Hv (HInt 1)) \<and>
        atom_attr g4 n ''p_neighbors'' = Some (Hv (HInt 0)))"
proof (intro conjI impI)
  assume a: "cgr_add_atom g element s_charge p_charge map_opt mark s_x s_y s_z p_x p_y p_z = Inr g1"
  then obtain m where m: "new_map g map_opt = Inr m"
    by (auto simp: cgr_add_atom_def split: sum.splits)
  have fresh: "m \<notin> set (node_ids g)" by (rule new_map_fresh[OF m])
  then have none: "atom g m = None" by (simp add: atom_None_iff)
  from a m have g1: "g1 = add_node m [''element'' \<mapsto> element, ''s_charge'' \<mapsto> s_charge,
                           ''p_charge'' \<mapsto> default_to p_charge s_charge, ''mark'' \<mapsto> mark,
                           ''s_x'' \<mapsto> s_x, ''s_y'' \<mapsto> s_y, ''s_z'' \<mapsto> s_z,
                           ''p_x'' \<mapsto> default_to p_x s_x, ''p_y'' \<mapsto> default_to p_y s_y,
                           ''p_z'' \<mapsto> default_to p_z s_z, ''map'' \<mapsto> Hv (HInt m)] g"
    by (simp add: cgr_add_atom_def)
  have "atom_attr g1 m ''s_charge'' = Some s_charge"
    "atom_attr g1 m ''p_charge'' = Some (if p_charge = Hv HNone then s_charge else p_charge)"
    "\<forall>m'. m' \<noteq> m \<longrightarrow> atom g1 m' = atom g m'"
    unfolding g1 by (simp_all add: atom_attr_def atom_add_node none default_to_def)
  then show "\<exists>n. n \<notin> set (node_ids g)
          \<and> atom_attr g1 n ''s_charge'' = Some s_charge
          \<and> atom_attr g1 n ''p_charge'' = Some (if p_charge = Hv HNone then s_charge else p_charge)
          \<and> (\<forall>m. m \<noteq> n \<longrightarrow> atom g1 m = atom g m)"
    using fresh by blast
next
  assume "kind g = CGR \<and> reset_query_marks g = Inr g2"
  then have "kind g = CGR" and "reset_query_marks g = Inr g2" by simp_all
  then have loop: "query_marks_loop cgr_query_label (node_ids g) g = Inr g2"
    by (simp add: reset_query_marks_def cgr_reset_query_marks_def)
  show "atom_attr g2 n ''s_charge'' = atom_attr g n ''s_charge''"
    by (rule query_marks_loop_keeps[OF _ loop]) (simp add: cgr_query_label_charge)
  show "atom_attr g2 n ''p_charge'' = atom_attr g n ''p_charge''"
    by (rule query_marks_loop_keeps[OF _ loop]) (simp add: cgr_query_label_charge)
next
  assume a: "mol_add_atom g element s_charge map_opt mark x y z = Inr g3"
  then obtain m where m: "new_map g map_opt = Inr m"
    by (auto simp: mol_add_atom_def split: sum.splits)
  have fresh: "m \<notin> set (node_ids g)" by (rule new_map_fresh[OF m])
  then have none: "atom g m = None" by (simp add: atom_None_iff)
  from a m have g3: "g3 = add_node m [''element'' \<mapsto> element, ''s_charge'' \<mapsto> s_charge, ''mark'' \<mapsto> mark,
                           ''s_x'' \<mapsto> x, ''s_y'' \<mapsto> y, ''s_z'' \<mapsto> z, ''map'' \<mapsto> Hv (HInt m)] g"
    by (simp add: mol_add_atom_def)
  have "atom_attr g3 m ''s_charge'' = Some s_charge"
    "\<forall>m'. m' \<noteq> m \<longrightarrow> atom g3 m' = atom g m'"
    unfolding g3 by (simp_all add: atom_attr_def atom_add_node none)
  moreover have "\<forall>k. atom_attr g3 m k \<noteq> None \<longrightarrow> take 2 k \<noteq> ''p_''"
    unfolding g3 by (auto simp: atom_attr_def atom_add_node none split: if_splits)
  ultimately show "\<exists>n. n \<notin> set (node_ids g)
          \<and> atom_attr g3 n ''s_charge'' = Some s_charge
          \<and> (\<forall>k. atom_attr g3 n k \<noteq> None \<longrightarrow> take 2 k \<noteq> ''p_'')
          \<and> (\<forall>m. m \<noteq> n \<longrightarrow> atom g3 m = atom g m)"
    using fresh by blast
next
  assume a: "kind g = Molecule \<and> in_bunch nodes_bunch n \<and>
        atom_attr (fix_data g nodes_bunch edges_bunch) n k \<noteq> None"
  then have mol: "kind g = Molecule" and inb: "in_bunch nodes_bunch n"
    and some: "atom_attr (fix_data g nodes_bunch edges_bunch) n k \<noteq> None" by simp_all
  have "Option.bind (map_option (renew_node Molecule) (atom g n)) (\<lambda>a. a k) \<noteq> None"
    using some by (simp add: atom_attr_def atom_fix_data mol inb)
  then obtain b where "atom g n = Some b" "mol_attr_renew b mol_node_marks k \<noteq> None"
    by (cases "atom g n") (simp_all add: renew_node_def)
  then have "k \<in> set mol_node_marks" by (simp add: mol_attr_renew_lookup split: if_splits)
  then show "take 2 k \<noteq> ''p_''" by (rule mol_marks_not_p)
next
  assume a: "kind g = Molecule \<and> reset_query_marks g = Inr g4 \<and> n \<in> set (node_ids g)"
  then have "kind g = Molecule" and "reset_query_marks g = Inr g4" by simp_all
  then have loop: "query_marks_loop mol_query_label (node_ids g) g = Inr g4"
    by (simp add: reset_query_marks_def mol_reset_query_marks_def)
  have n: "n \<in> set (node_ids g) \<or> atom_attr g n k' = Some v" for k' v using a by simp
  show "atom_attr g4 n ''p_hyb'' = Some (Hv (HInt 1))"
    by (rule query_marks_loop_sets[OF _ loop n]) (simp add: mol_query_label_p)
  show "atom_attr g4 n ''p_neighbors'' = Some (Hv (HInt 0))"
    by (rule query_marks_loop_sets[OF _ loop n]) (simp add: mol_query_label_p)
qed


theorem charge_and_state_marks_after_operations_witness:
  "cgr_add_atom_default (empty_graph CGR) (Hv (HStr ''C'')) (Hv (HInt 0)) = Inr cgr_one_atom
   \<and> (\<exists>n. atom_attr cgr_one_atom n ''s_charge'' = Some (Hv (HInt 0))
          \<and> atom_attr cgr_one_atom n ''p_charge'' = Some (Hv (HInt 0)))
   \<and> kind cgr_one_atom = CGR
   \<and> (\<exists>g2. reset_query_marks cgr_one_atom = Inr g2
          \<and> atom_attr g2 1 ''p_charge'' = atom_attr cgr_one_atom 1 ''p_charge'')
   \<and> mol_add_atom_default (empty_graph Molecule) (Hv (HStr ''C'')) (Hv (HInt 0)) = Inr mol_one_atom
   \<and> (\<exists>n. atom_attr mol_one_atom n ''s_charge'' = Some (Hv (HInt 0))
          \<and> atom_attr mol_one_atom n ''p_charge'' = None)
   \<and> kind mol_one_atom = Molecule \<and> in_bunch None 1
   \<and> atom_attr (fix_data mol_one_atom None None) 1 ''s_charge'' \<noteq> None
   \<and> take 2 ''s_charge'' \<noteq> ''p_''
   \<and> 1 \<in> set (node_ids mol_one_atom)
   \<and> (\<exists>g4. reset_query_marks mol_one_atom = Inr g4
          \<and> atom_attr g4 1 ''p_hyb'' = Some (Hv (HInt 1)))"
proof -
  have kc: "kind cgr_one_atom = CGR" and km: "kind mol_one_atom = Molecule"
    and ib: "in_bunch None 1" and im: "1 \<in> set (node_ids mol_one_atom)"
    by (simp_all add: cgr_one_atom_def mol_one_atom_def in_bunch_def node_ids_def)
  have cb: "cgr_add_atom (empty_graph CGR) (Hv (HStr ''C'')) (Hv (HInt 0)) (Hv HNone) None (Hv (HStr ''0''))
       (Hv (HInt 0)) (Hv (HInt 0)) (Hv (HInt 0)) (Hv HNone) (Hv HNone) (Hv HNone) = Inr cgr_one_atom"
    using cgr_one_atom_built by (simp add: cgr_add_atom_default_def)
  have mb: "mol_add_atom (empty_graph Molecule) (Hv (HStr ''C'')) (Hv (HInt 0)) None (Hv (HStr ''0''))
       (Hv (HInt 0)) (Hv (HInt 0)) (Hv (HInt 0)) = Inr mol_one_atom"
    using mol_one_atom_built by (simp add: mol_add_atom_default_def)
  have w1: "\<exists>n. atom_attr cgr_one_atom n ''s_charge'' = Some (Hv (HInt 0))
          \<and> atom_attr cgr_one_atom n ''p_charge'' = Some (Hv (HInt 0))"
    using charge_and_state_marks_after_operations[THEN conjunct1, rule_format, OF cb] by auto
  obtain g2 where g2: "reset_query_marks cgr_one_atom = Inr g2"
    by (simp add: reset_query_marks_def cgr_reset_query_marks_def cgr_one_atom_def node_ids_def
          cgr_query_label_def adj_def)
  have w2: "atom_attr g2 1 ''p_charge'' = atom_attr cgr_one_atom 1 ''p_charge''"
    using charge_and_state_marks_after_operations[THEN conjunct2, THEN conjunct1, rule_format,
        of cgr_one_atom g2 1] kc g2 by simp
  have w3: "\<exists>n. atom_attr mol_one_atom n ''s_charge'' = Some (Hv (HInt 0))
          \<and> atom_attr mol_one_atom n ''p_charge'' = None"
  proof -
    from charge_and_state_marks_after_operations[THEN conjunct2, THEN conjunct2, THEN conjunct1,
        rule_format, OF mb]
    obtain n where n: "atom_attr mol_one_atom n ''s_charge'' = Some (Hv (HInt 0))"
      "\<forall>k. atom_attr mol_one_atom n k \<noteq> None \<longrightarrow> take 2 k \<noteq> ''p_''" by blast
    have "take 2 ''p_charge'' = ''p_''" by simp
    then have "atom_attr mol_one_atom n ''p_charge'' = None" using n(2) by blast
    then show ?thesis using n(1) by blast
  qed
  have fx: "atom_attr (fix_data mol_one_atom None None) 1 ''s_charge'' \<noteq> None"
    unfolding atom_attr_def atom_fix_data
    by (simp add: in_bunch_def mol_one_atom_def atom_def renew_node_def mol_carbon_renewed)
  have w4: "take 2 ''s_charge'' \<noteq> ''p_''"
    using charge_and_state_marks_after_operations[THEN conjunct2, THEN conjunct2, THEN conjunct2,
        THEN conjunct1, rule_format, of mol_one_atom None 1 None "''s_charge''"] km ib fx by blast
  obtain g4 where g4: "reset_query_marks mol_one_atom = Inr g4"
    by (simp add: reset_query_marks_def mol_reset_query_marks_def mol_one_atom_def node_ids_def
          mol_query_label_def adj_def)
  have w5: "atom_attr g4 1 ''p_hyb'' = Some (Hv (HInt 1))"
    using charge_and_state_marks_after_operations[THEN conjunct2, THEN conjunct2, THEN conjunct2,
        THEN conjunct2, rule_format, of mol_one_atom g4 1] km g4 im by simp
  show ?thesis
    using cgr_one_atom_built w1 kc g2 w2 mol_one_atom_built w3 km ib fx w4 im g4 w5 by blast
qed

section \<open>Hybridization precedence and iteration order\<close>

lemma hyb_update_terminal: "hyb = 3 \<or> hyb = 4 \<Longrightarrow> hyb_update b hyb = hyb"
  by (auto simp: hyb_update_def)

lemma hyb_update_double_twice: "hyb_update (Hv (HInt 2)) 2 = 3"
  by (simp add: hyb_update_def)

lemma hyb_update_double:
  "hyb \<noteq> 2 \<Longrightarrow> hyb \<noteq> 3 \<Longrightarrow> hyb \<noteq> 4 \<Longrightarrow> hyb_update (Hv (HInt 2)) hyb = 2"
  by (simp add: hyb_update_def)

lemma hyb_update_triple: "hyb \<noteq> 3 \<Longrightarrow> hyb \<noteq> 4 \<Longrightarrow> hyb_update (Hv (HInt 3)) hyb = 3"
  by (simp add: hyb_update_def)

lemma hyb_update_aromatic: "hyb \<noteq> 3 \<Longrightarrow> hyb_update (Hv (HInt 4)) hyb = 4"
  by (simp add: hyb_update_def)

lemma hyb_update_other:
  "b \<noteq> Hv (HInt 2) \<Longrightarrow> b \<noteq> Hv (HInt 3) \<Longrightarrow> b \<noteq> Hv (HInt 4) \<Longrightarrow> hyb_update b hyb = hyb"
  by (simp add: hyb_update_def)

lemmas hyb_update_steps =
  hyb_update_terminal hyb_update_double_twice hyb_update_double hyb_update_triple
  hyb_update_aromatic hyb_update_other

lemma hyb_terminal: "hyb = 3 \<or> hyb = 4 \<Longrightarrow> fold hyb_update bs hyb = hyb"
  by (induction bs) (simp_all add: hyb_update_terminal)

lemma hyb_fold_no_aromatic:
  "Hv (HInt 4) \<notin> set bs \<Longrightarrow>
   fold hyb_update bs hyb =
     (if hyb = 3 \<or> hyb = 4 then hyb
      else if Hv (HInt 3) \<in> set bs \<or> 2 \<le> count (mset bs) (Hv (HInt 2)) + (if hyb = 2 then 1 else 0) then 3
      else if count (mset bs) (Hv (HInt 2)) + (if hyb = 2 then 1 else 0) = 1 then 2
      else hyb)"
proof (induction bs arbitrary: hyb)
  case Nil
  then show ?case by simp
next
  case (Cons b bs)
  have no4: "Hv (HInt 4) \<notin> set bs" and b4: "b \<noteq> Hv (HInt 4)" using Cons.prems by auto
  note IH = Cons.IH[OF no4]
  consider (stop) "hyb = 3 \<or> hyb = 4"
    | (two_two) "hyb = 2" "b = Hv (HInt 2)"
    | (two) "hyb \<noteq> 2" "hyb \<noteq> 3" "hyb \<noteq> 4" "b = Hv (HInt 2)"
    | (three) "hyb \<noteq> 3" "hyb \<noteq> 4" "b = Hv (HInt 3)"
    | (other) "hyb \<noteq> 3" "hyb \<noteq> 4" "b \<noteq> Hv (HInt 2)" "b \<noteq> Hv (HInt 3)"
    by blast
  then show ?case
  proof cases
    case stop
    then show ?thesis using hyb_terminal[of hyb "b # bs"] by simp
  next
    case two_two
    then show ?thesis using hyb_terminal[of 3 bs] by (simp add: hyb_update_steps)
  next
    case two
    then show ?thesis by (simp add: hyb_update_steps IH)
  next
    case three
    then show ?thesis using hyb_terminal[of 3 bs] by (simp add: hyb_update_steps)
  next
    case other
    then show ?thesis using b4 by (simp add: hyb_update_steps IH)
  qed
qed

lemma hyb_fold_aromatic:
  "Hv (HInt 4) \<in> set bs \<Longrightarrow> Hv (HInt 3) \<notin> set bs \<Longrightarrow>
   count (mset bs) (Hv (HInt 2)) + (if hyb = 2 then 1 else 0) \<le> 1 \<Longrightarrow>
   hyb \<noteq> 3 \<Longrightarrow> fold hyb_update bs hyb = 4"
proof (induction bs arbitrary: hyb)
  case Nil
  then show ?case by simp
next
  case (Cons b bs)
  show ?case
  proof (cases "hyb = 4")
    case True
    then show ?thesis using hyb_terminal[of hyb "b # bs"] by simp
  next
    case h4: False
    show ?thesis
    proof (cases "b = Hv (HInt 4)")
      case True
      then show ?thesis using Cons.prems(4) hyb_terminal[of 4 bs] by (simp add: hyb_update_steps)
    next
      case False
      then have in4: "Hv (HInt 4) \<in> set bs" using Cons.prems(1) by auto
      have no3: "Hv (HInt 3) \<notin> set bs" and b3: "b \<noteq> Hv (HInt 3)" using Cons.prems(2) by auto
      show ?thesis
      proof (cases "b = Hv (HInt 2)")
        case True
        then have h2: "hyb \<noteq> 2" and c: "count (mset bs) (Hv (HInt 2)) = 0"
          using Cons.prems(3) by (auto split: if_splits)
        have "fold hyb_update bs 2 = 4"
          by (rule Cons.IH[OF in4 no3]) (simp_all add: c)
        then show ?thesis using True h2 h4 Cons.prems(4) by (simp add: hyb_update_steps)
      next
        case b2: False
        have "fold hyb_update bs hyb = 4"
          by (rule Cons.IH[OF in4 no3]) (use Cons.prems(3,4) b2 in \<open>simp_all\<close>)
        then show ?thesis using b2 b3 False by (simp add: hyb_update_steps)
      qed
    qed
  qed
qed

lemma hyb_fold_perm:
  assumes "mset bs = mset bs'"
    and "Hv (HInt 4) \<notin> set bs \<or> (Hv (HInt 3) \<notin> set bs \<and> count (mset bs) (Hv (HInt 2)) \<le> 1)"
  shows "fold hyb_update bs 1 = fold hyb_update bs' 1"
proof -
  have sets: "set bs = set bs'" using assms(1) by (rule mset_eq_setD)
  show ?thesis
  proof (cases "Hv (HInt 4) \<in> set bs")
    case False
    then show ?thesis
      using hyb_fold_no_aromatic[of bs 1] hyb_fold_no_aromatic[of bs' 1] sets assms(1) by simp
  next
    case True
    then have c: "Hv (HInt 3) \<notin> set bs" "count (mset bs) (Hv (HInt 2)) \<le> 1" using assms(2) by auto
    have "fold hyb_update bs 1 = 4" using hyb_fold_aromatic[OF True c(1), of 1] c(2) by simp
    moreover have "fold hyb_update bs' 1 = 4"
      using hyb_fold_aromatic[of bs' 1] True c sets assms(1) by simp
    ultimately show ?thesis by simp
  qed
qed

lemma marks_loop_result:
  "marks_loop g b items (hyb, nb) =
     (if \<exists>x \<in> set items. truthy (py_get (snd x) b) \<and>
            Option.bind (atom g (fst x)) (\<lambda>a. a ''element'') = None
      then Inl KeyError
      else Inr (fold hyb_update (map (\<lambda>x. py_get (snd x) b) items) hyb,
                nb + int (length (filter (\<lambda>x. truthy (py_get (snd x) b) \<and>
                     Option.bind (atom g (fst x)) (\<lambda>a. a ''element'') \<noteq> Some (Hv (HStr ''H''))) items))))"
proof (induction items arbitrary: hyb nb)
  case Nil
  then show ?case by simp
next
  case (Cons x items)
  obtain node bond_attr where x: "x = (node, bond_attr)" by (cases x)
  show ?case unfolding x
    by (cases "Option.bind (atom g node) (\<lambda>a. a ''element'')")
       (auto simp: Let_def Cons.IH)
qed


text \<open>
  The two molecules of the order example are what \<^verbatim>\<open>add_bond\<close> builds when the triple
  bond, respectively the aromatic bond, is added first.
\<close>

lemma hyb_triple_first_built:
  "mol_add_bond (hyb_triple_first\<lparr>edge_list := []\<rparr>) 1 2 (Hv (HInt 3)) =
     Inr (hyb_triple_first\<lparr>edge_list := [((1, 2), [''s_bond'' \<mapsto> Hv (HInt 3)])]\<rparr>)
   \<and> mol_add_bond (hyb_triple_first\<lparr>edge_list := [((1, 2), [''s_bond'' \<mapsto> Hv (HInt 3)])]\<rparr>)
        1 3 (Hv (HInt 4)) = Inr hyb_triple_first"
  by (simp add: mol_add_bond_def hyb_triple_first_def node_ids_def add_edge_def same_edge_def)

lemma hyb_aromatic_first_built:
  "mol_add_bond (hyb_aromatic_first\<lparr>edge_list := []\<rparr>) 1 3 (Hv (HInt 4)) =
     Inr (hyb_aromatic_first\<lparr>edge_list := [((1, 3), [''s_bond'' \<mapsto> Hv (HInt 4)])]\<rparr>)
   \<and> mol_add_bond (hyb_aromatic_first\<lparr>edge_list := [((1, 3), [''s_bond'' \<mapsto> Hv (HInt 4)])]\<rparr>)
        1 2 (Hv (HInt 3)) = Inr hyb_aromatic_first"
  by (simp add: mol_add_bond_def hyb_aromatic_first_def node_ids_def add_edge_def same_edge_def)

text \<open>
  Claim C6, as stated, fails: the derived hybridization depends on the order in which
  the incident bonds are iterated.  Atom 1 below has one triple and one aromatic bond;
  when the triple bond is first in \<^verbatim>\<open>g[1].items()\<close> the atom derives \<^verbatim>\<open>s_hyb=3\<close>, when
  the aromatic bond is first it derives \<^verbatim>\<open>s_hyb=4\<close>.
\<close>

theorem hybridization_order_counterexample:
  "result_attr (reset_query_marks hyb_triple_first) 1 ''s_hyb'' = Some (Hv (HInt 3))
   \<and> result_attr (reset_query_marks hyb_aromatic_first) 1 ''s_hyb'' = Some (Hv (HInt 4))
   \<and> mset (adj hyb_triple_first 1) = mset (adj hyb_aromatic_first 1)
   \<and> map snd (adj hyb_triple_first 1) = [[''s_bond'' \<mapsto> Hv (HInt 3)], [''s_bond'' \<mapsto> Hv (HInt 4)]]"
proof -
  have t: "result_attr (reset_query_marks hyb_triple_first) 1 ''s_hyb'' = Some (Hv (HInt 3))"
    by (simp add: reset_query_marks_def mol_reset_query_marks_def hyb_triple_first_def node_ids_def
          mol_query_label_def adj_def touches_def atom_def py_get_def hyb_update_def add_node_def
          result_attr_def atom_attr_def)
  have a: "result_attr (reset_query_marks hyb_aromatic_first) 1 ''s_hyb'' = Some (Hv (HInt 4))"
    by (simp add: reset_query_marks_def mol_reset_query_marks_def hyb_aromatic_first_def node_ids_def
          mol_query_label_def adj_def touches_def atom_def py_get_def hyb_update_def add_node_def
          result_attr_def atom_attr_def)
  have m: "mset (adj hyb_triple_first 1) = mset (adj hyb_aromatic_first 1)"
    by (simp add: adj_def touches_def hyb_triple_first_def hyb_aromatic_first_def)
  have l: "map snd (adj hyb_triple_first 1) = [[''s_bond'' \<mapsto> Hv (HInt 3)], [''s_bond'' \<mapsto> Hv (HInt 4)]]"
    by (simp add: adj_def touches_def hyb_triple_first_def)
  show ?thesis using t a m l by blast
qed

lemma perm_hd: "x \<in> set xs \<Longrightarrow> mset (x # remove1 x xs) = mset xs"
  by simp

lemma hyb_fold_order_dependent:
  assumes four: "Hv (HInt 4) \<in> set bs"
    and more: "Hv (HInt 3) \<in> set bs \<or> 2 \<le> count (mset bs) (Hv (HInt 2))"
  shows "\<exists>bs1 bs2. mset bs1 = mset bs \<and> mset bs2 = mset bs \<and>
           fold hyb_update bs1 1 = 4 \<and> fold hyb_update bs2 1 = 3"
proof -
  let ?b1 = "Hv (HInt 4) # remove1 (Hv (HInt 4)) bs"
  have m1: "mset ?b1 = mset bs" using four by simp
  have f1: "fold hyb_update ?b1 1 = 4"
    using hyb_terminal[of 4 "remove1 (Hv (HInt 4)) bs"] by (simp add: hyb_update_steps)
  have "\<exists>bs2. mset bs2 = mset bs \<and> fold hyb_update bs2 1 = 3"
  proof (cases "Hv (HInt 3) \<in> set bs")
    case True
    let ?b2 = "Hv (HInt 3) # remove1 (Hv (HInt 3)) bs"
    have "mset ?b2 = mset bs" using True by simp
    moreover have "fold hyb_update ?b2 1 = 3"
      using hyb_terminal[of 3 "remove1 (Hv (HInt 3)) bs"] by (simp add: hyb_update_steps)
    ultimately show ?thesis by blast
  next
    case False
    then have c: "2 \<le> count (mset bs) (Hv (HInt 2))" using more by simp
    let ?r = "remove1 (Hv (HInt 2)) (remove1 (Hv (HInt 2)) bs)"
    let ?b2 = "Hv (HInt 2) # Hv (HInt 2) # ?r"
    have in1: "Hv (HInt 2) \<in> set bs"
    proof (rule ccontr)
      assume "Hv (HInt 2) \<notin> set bs"
      then have "count (mset bs) (Hv (HInt 2)) = 0" by (metis count_eq_zero_iff set_mset_mset)
      then show False using c by linarith
    qed
    have in2: "Hv (HInt 2) \<in> set (remove1 (Hv (HInt 2)) bs)"
    proof (rule ccontr)
      assume "Hv (HInt 2) \<notin> set (remove1 (Hv (HInt 2)) bs)"
      then have "count (mset (remove1 (Hv (HInt 2)) bs)) (Hv (HInt 2)) = 0"
        by (metis count_eq_zero_iff set_mset_mset)
      moreover have "count (mset (remove1 (Hv (HInt 2)) bs)) (Hv (HInt 2)) =
                     count (mset bs) (Hv (HInt 2)) - 1" by simp
      ultimately show False using c by linarith
    qed
    have "mset ?b2 = add_mset (Hv (HInt 2)) (mset (Hv (HInt 2) # ?r))" by simp
    also have "mset (Hv (HInt 2) # ?r) = mset (remove1 (Hv (HInt 2)) bs)"
      by (rule perm_hd[OF in2])
    also have "add_mset (Hv (HInt 2)) (mset (remove1 (Hv (HInt 2)) bs)) =
               mset (Hv (HInt 2) # remove1 (Hv (HInt 2)) bs)" by simp
    also have "\<dots> = mset bs" by (rule perm_hd[OF in1])
    finally have "mset ?b2 = mset bs" .
    moreover have "fold hyb_update ?b2 1 = 3"
      using hyb_terminal[of 3 ?r] by (simp add: hyb_update_steps)
    ultimately show ?thesis by blast
  qed
  then show ?thesis using m1 f1 by blast
qed

lemma hyb_fold_order_iff:
  "(\<forall>bs'. mset bs' = mset bs \<longrightarrow> fold hyb_update bs' 1 = fold hyb_update bs 1) \<longleftrightarrow>
     (Hv (HInt 4) \<notin> set bs \<or> (Hv (HInt 3) \<notin> set bs \<and> count (mset bs) (Hv (HInt 2)) \<le> 1))"
proof
  assume same: "\<forall>bs'. mset bs' = mset bs \<longrightarrow> fold hyb_update bs' 1 = fold hyb_update bs 1"
  show "Hv (HInt 4) \<notin> set bs \<or> (Hv (HInt 3) \<notin> set bs \<and> count (mset bs) (Hv (HInt 2)) \<le> 1)"
  proof (rule ccontr)
    assume "\<not> ?thesis"
    then have "Hv (HInt 4) \<in> set bs" "Hv (HInt 3) \<in> set bs \<or> 2 \<le> count (mset bs) (Hv (HInt 2))"
      by auto
    from hyb_fold_order_dependent[OF this] obtain bs1 bs2 where
      "mset bs1 = mset bs" "mset bs2 = mset bs" "fold hyb_update bs1 1 = 4" "fold hyb_update bs2 1 = 3"
      by blast
    then have "(4::int) = 3" using same by metis
    then show False by simp
  qed
next
  assume c: "Hv (HInt 4) \<notin> set bs \<or> (Hv (HInt 3) \<notin> set bs \<and> count (mset bs) (Hv (HInt 2)) \<le> 1)"
  show "\<forall>bs'. mset bs' = mset bs \<longrightarrow> fold hyb_update bs' 1 = fold hyb_update bs 1"
  proof (intro allI impI)
    fix bs' assume "mset bs' = mset bs"
    then have "mset bs = mset bs'" by simp
    from hyb_fold_perm[OF this c] show "fold hyb_update bs' 1 = fold hyb_update bs 1" by simp
  qed
qed

lemma edge_list_add_node: "edge_list (add_node i label g) = edge_list g"
  by (simp add: add_node_def)

lemma adj_same_edges: "edge_list g = edge_list g' \<Longrightarrow> adj g i = adj g' i"
  by (simp add: adj_def)

lemma marks_loop_hyb:
  "marks_loop g b items (1, 0) = Inr (h, n) \<Longrightarrow>
   h = fold hyb_update (map (\<lambda>x. py_get (snd x) b) items) 1"
  unfolding marks_loop_result by (simp split: if_splits)

lemma mol_query_label_hyb:
  assumes "edge_list g' = edge_list g" and "mol_query_label g' i = Inr label"
  shows "label ''s_hyb'' =
           Some (Hv (HInt (fold hyb_update (map (\<lambda>x. py_get (snd x) ''s_bond'') (adj g i)) 1)))"
proof -
  have adj: "adj g' i = adj g i" by (rule adj_same_edges[OF assms(1)])
  from assms(2) obtain h n where run: "marks_loop g' ''s_bond'' (adj g i) (1, 0) = Inr (h, n)"
    and label: "label ''s_hyb'' = Some (Hv (HInt h))"
    unfolding mol_query_label_def adj by (auto split: sum.splits)
  show ?thesis unfolding label using marks_loop_hyb[OF run] by simp
qed

lemma cgr_query_label_hyb:
  assumes "edge_list g' = edge_list g" and "cgr_query_label g' i = Inr label"
  shows "label ''s_hyb'' =
           Some (Hv (HInt (fold hyb_update (map (\<lambda>x. py_get (snd x) ''s_bond'') (adj g i)) 1)))"
    and "label ''p_hyb'' =
           Some (Hv (HInt (fold hyb_update (map (\<lambda>x. py_get (snd x) ''p_bond'') (adj g i)) 1)))"
    and "label ''sp_hyb'' =
           Some (sp_mark (fold hyb_update (map (\<lambda>x. py_get (snd x) ''s_bond'') (adj g i)) 1)
                         (fold hyb_update (map (\<lambda>x. py_get (snd x) ''p_bond'') (adj g i)) 1))"
proof -
  have adj: "adj g' i = adj g i" by (rule adj_same_edges[OF assms(1)])
  from assms(2) obtain hs ns hp np where
        s: "marks_loop g' ''s_bond'' (adj g i) (1, 0) = Inr (hs, ns)"
    and p: "marks_loop g' ''p_bond'' (adj g i) (1, 0) = Inr (hp, np)"
    and label: "label ''s_hyb'' = Some (Hv (HInt hs))" "label ''p_hyb'' = Some (Hv (HInt hp))"
               "label ''sp_hyb'' = Some (sp_mark hs hp)"
    unfolding cgr_query_label_def adj by (auto split: sum.splits)
  note hs = marks_loop_hyb[OF s] and hp = marks_loop_hyb[OF p]
  show "label ''s_hyb'' =
           Some (Hv (HInt (fold hyb_update (map (\<lambda>x. py_get (snd x) ''s_bond'') (adj g i)) 1)))"
    unfolding label using hs by simp
  show "label ''p_hyb'' =
           Some (Hv (HInt (fold hyb_update (map (\<lambda>x. py_get (snd x) ''p_bond'') (adj g i)) 1)))"
    unfolding label using hp by simp
  show "label ''sp_hyb'' =
           Some (sp_mark (fold hyb_update (map (\<lambda>x. py_get (snd x) ''s_bond'') (adj g i)) 1)
                         (fold hyb_update (map (\<lambda>x. py_get (snd x) ''p_bond'') (adj g i)) 1))"
    unfolding label using hs hp by simp
qed

lemma query_marks_loop_writes:
  assumes lab: "\<And>g' i label. edge_list g' = E \<Longrightarrow> lab g' i = Inr label \<Longrightarrow> label k = Some (v i)"
  shows "query_marks_loop lab ids g = Inr g' \<Longrightarrow> edge_list g = E \<Longrightarrow>
         n \<in> set ids \<or> atom_attr g n k = Some (v n) \<Longrightarrow> atom_attr g' n k = Some (v n)"
proof (induction ids arbitrary: g)
  case Nil
  then show ?case by simp
next
  case (Cons i rest)
  from Cons.prems(1) obtain label where l: "lab g i = Inr label"
    and r: "query_marks_loop lab rest (add_node i label g) = Inr g'"
    by (auto split: sum.splits)
  have lk: "label k = Some (v i)" by (rule lab[OF Cons.prems(2) l])
  have e: "edge_list (add_node i label g) = E" using Cons.prems(2) by (simp add: edge_list_add_node)
  have "n \<in> set rest \<or> atom_attr (add_node i label g) n k = Some (v n)"
    using Cons.prems(3) by (auto simp: atom_attr_add_node_set[of label k "v i", OF lk])
  then show ?case by (rule Cons.IH[OF r e])
qed

lemma reset_query_marks_hyb:
  assumes res: "reset_query_marks g = Inr g'" and i: "i \<in> set (node_ids g)"
  shows "(kind g = Molecule \<longrightarrow>
           atom_attr g' i ''s_hyb'' =
             Some (Hv (HInt (fold hyb_update (map (\<lambda>x. py_get (snd x) ''s_bond'') (adj g i)) 1))))
       \<and> (kind g = CGR \<longrightarrow>
           atom_attr g' i ''s_hyb'' =
             Some (Hv (HInt (fold hyb_update (map (\<lambda>x. py_get (snd x) ''s_bond'') (adj g i)) 1))) \<and>
           atom_attr g' i ''p_hyb'' =
             Some (Hv (HInt (fold hyb_update (map (\<lambda>x. py_get (snd x) ''p_bond'') (adj g i)) 1))) \<and>
           atom_attr g' i ''sp_hyb'' =
             Some (sp_mark (fold hyb_update (map (\<lambda>x. py_get (snd x) ''s_bond'') (adj g i)) 1)
                           (fold hyb_update (map (\<lambda>x. py_get (snd x) ''p_bond'') (adj g i)) 1)))"
proof -
  let ?hs = "\<lambda>i. fold hyb_update (map (\<lambda>x. py_get (snd x) ''s_bond'') (adj g i)) 1"
  let ?hp = "\<lambda>i. fold hyb_update (map (\<lambda>x. py_get (snd x) ''p_bond'') (adj g i)) 1"
  have start: "i \<in> set (node_ids g) \<or> atom_attr g i k = Some w" for k w using i by simp
  have mol: "atom_attr g' i ''s_hyb'' = Some (Hv (HInt (?hs i)))" if "kind g = Molecule"
  proof -
    have loop: "query_marks_loop mol_query_label (node_ids g) g = Inr g'"
      using res that by (simp add: reset_query_marks_def mol_reset_query_marks_def)
    show ?thesis
      by (rule query_marks_loop_writes[where lab = mol_query_label and E = "edge_list g"
            and v = "\<lambda>i. Hv (HInt (?hs i))", OF _ loop refl start])
         (rule mol_query_label_hyb)
  qed
  have cgr: "atom_attr g' i ''s_hyb'' = Some (Hv (HInt (?hs i))) \<and>
             atom_attr g' i ''p_hyb'' = Some (Hv (HInt (?hp i))) \<and>
             atom_attr g' i ''sp_hyb'' = Some (sp_mark (?hs i) (?hp i))" if "kind g = CGR"
  proof -
    have loop: "query_marks_loop cgr_query_label (node_ids g) g = Inr g'"
      using res that by (simp add: reset_query_marks_def cgr_reset_query_marks_def)
    have s: "atom_attr g' i ''s_hyb'' = Some (Hv (HInt (?hs i)))"
      by (rule query_marks_loop_writes[where lab = cgr_query_label and E = "edge_list g"
            and v = "\<lambda>i. Hv (HInt (?hs i))", OF _ loop refl start])
         (rule cgr_query_label_hyb(1))
    have p: "atom_attr g' i ''p_hyb'' = Some (Hv (HInt (?hp i)))"
      by (rule query_marks_loop_writes[where lab = cgr_query_label and E = "edge_list g"
            and v = "\<lambda>i. Hv (HInt (?hp i))", OF _ loop refl start])
         (rule cgr_query_label_hyb(2))
    have sp: "atom_attr g' i ''sp_hyb'' = Some (sp_mark (?hs i) (?hp i))"
      by (rule query_marks_loop_writes[where lab = cgr_query_label and E = "edge_list g"
            and v = "\<lambda>i. sp_mark (?hs i) (?hp i)", OF _ loop refl start])
         (rule cgr_query_label_hyb(3))
    show ?thesis using s p sp by blast
  qed
  show ?thesis using mol cgr by blast
qed

text \<open>
  Claim C6, amended.  For every atom and channel the per-bond rule is: an order-4 bond
  sets hybridization 4 and an order-3 bond sets 3, unless the atom is already at 3 or 4;
  an order-2 bond sets 2, or 3 when the atom is already at 2; order 1 or an undefined
  order changes nothing; both 3 and 4 are terminal.  The loop's hybridization is the
  fold of this rule over the incident bonds from 1, so a first bond of order 4 gives 4
  and a first bond of order 3 gives 3, and this fold is what \<^verbatim>\<open>reset_query_marks\<close>
  writes: over the \<^verbatim>\<open>s_bond\<close> marks to \<^verbatim>\<open>s_hyb\<close> and, on a CGR, over the \<^verbatim>\<open>p_bond\<close>
  marks to \<^verbatim>\<open>p_hyb\<close>, with \<^verbatim>\<open>sp_hyb\<close> combining the two.  The derived hybridization is
  the same for every iteration order exactly when the atom has no order-4 bond, or has
  no order-3 bond and at most one order-2 bond; otherwise some orders give 4 and others
  give 3.  Under that condition the whole result of the loop (hybridization, neighbour
  count or \<^verbatim>\<open>KeyError\<close>) is the same for every iteration order.
\<close>

theorem hybridization_precedence:
  "(hyb \<noteq> 3 \<and> hyb \<noteq> 4 \<longrightarrow> hyb_update (Hv (HInt 4)) hyb = 4 \<and> hyb_update (Hv (HInt 3)) hyb = 3)
   \<and> hyb_update (Hv (HInt 2)) 2 = 3
   \<and> hyb_update (Hv (HInt 2)) 1 = 2
   \<and> hyb_update (Hv (HInt 1)) hyb = hyb
   \<and> hyb_update (Hv HNone) hyb = hyb
   \<and> (hyb = 3 \<or> hyb = 4 \<longrightarrow> hyb_update b_type hyb = hyb)
   \<and> (marks_loop g b items (1, 0) = Inr (h, n) \<longrightarrow>
        h = fold hyb_update (map (\<lambda>x. py_get (snd x) b) items) 1)
   \<and> fold hyb_update (Hv (HInt 4) # bs) 1 = 4
   \<and> fold hyb_update (Hv (HInt 3) # bs) 1 = 3
   \<and> (mset items = mset items' \<and>
        (Hv (HInt 4) \<notin> (\<lambda>x. py_get (snd x) b) ` set items \<or>
         (Hv (HInt 3) \<notin> (\<lambda>x. py_get (snd x) b) ` set items \<and>
          count (mset (map (\<lambda>x. py_get (snd x) b) items)) (Hv (HInt 2)) \<le> 1))
        \<longrightarrow> marks_loop g b items (1, 0) = marks_loop g b items' (1, 0))
   \<and> ((\<forall>cs'. mset cs' = mset cs \<longrightarrow> fold hyb_update cs' 1 = fold hyb_update cs 1) =
        (Hv (HInt 4) \<notin> set cs \<or> (Hv (HInt 3) \<notin> set cs \<and> count (mset cs) (Hv (HInt 2)) \<le> 1)))
   \<and> (Hv (HInt 4) \<in> set cs \<and> (Hv (HInt 3) \<in> set cs \<or> 2 \<le> count (mset cs) (Hv (HInt 2))) \<longrightarrow>
        (\<exists>cs1 cs2. mset cs1 = mset cs \<and> mset cs2 = mset cs \<and>
           fold hyb_update cs1 1 = 4 \<and> fold hyb_update cs2 1 = 3))
   \<and> (reset_query_marks gr = Inr gr' \<and> i \<in> set (node_ids gr) \<longrightarrow>
        (kind gr = Molecule \<longrightarrow>
           atom_attr gr' i ''s_hyb'' =
             Some (Hv (HInt (fold hyb_update (map (\<lambda>x. py_get (snd x) ''s_bond'') (adj gr i)) 1)))) \<and>
        (kind gr = CGR \<longrightarrow>
           atom_attr gr' i ''s_hyb'' =
             Some (Hv (HInt (fold hyb_update (map (\<lambda>x. py_get (snd x) ''s_bond'') (adj gr i)) 1))) \<and>
           atom_attr gr' i ''p_hyb'' =
             Some (Hv (HInt (fold hyb_update (map (\<lambda>x. py_get (snd x) ''p_bond'') (adj gr i)) 1))) \<and>
           atom_attr gr' i ''sp_hyb'' =
             Some (sp_mark (fold hyb_update (map (\<lambda>x. py_get (snd x) ''s_bond'') (adj gr i)) 1)
                           (fold hyb_update (map (\<lambda>x. py_get (snd x) ''p_bond'') (adj gr i)) 1))))"
proof -
  have steps: "(hyb \<noteq> 3 \<and> hyb \<noteq> 4 \<longrightarrow> hyb_update (Hv (HInt 4)) hyb = 4 \<and> hyb_update (Hv (HInt 3)) hyb = 3)
   \<and> hyb_update (Hv (HInt 2)) 2 = 3
   \<and> hyb_update (Hv (HInt 2)) 1 = 2
   \<and> hyb_update (Hv (HInt 1)) hyb = hyb
   \<and> hyb_update (Hv HNone) hyb = hyb
   \<and> (hyb = 3 \<or> hyb = 4 \<longrightarrow> hyb_update b_type hyb = hyb)"
    by (simp add: hyb_update_def)
  have loop: "h = fold hyb_update (map (\<lambda>x. py_get (snd x) b) items) 1"
    if "marks_loop g b items (1, 0) = Inr (h, n)"
    using that unfolding marks_loop_result by (simp split: if_splits)
  have first4: "fold hyb_update (Hv (HInt 4) # bs) 1 = 4"
    using hyb_terminal[of 4 bs] by (simp add: hyb_update_steps)
  have first3: "fold hyb_update (Hv (HInt 3) # bs) 1 = 3"
    using hyb_terminal[of 3 bs] by (simp add: hyb_update_steps)
  have perm: "marks_loop g b items (1, 0) = marks_loop g b items' (1, 0)"
    if m: "mset items = mset items'"
      and c: "Hv (HInt 4) \<notin> (\<lambda>x. py_get (snd x) b) ` set items \<or>
         (Hv (HInt 3) \<notin> (\<lambda>x. py_get (snd x) b) ` set items \<and>
          count (mset (map (\<lambda>x. py_get (snd x) b) items)) (Hv (HInt 2)) \<le> 1)"
  proof -
    have sets: "set items = set items'" using m by (rule mset_eq_setD)
    have mm: "mset (map (\<lambda>x. py_get (snd x) b) items) = mset (map (\<lambda>x. py_get (snd x) b) items')"
      using m by (metis mset_map)
    have hy: "fold hyb_update (map (\<lambda>x. py_get (snd x) b) items) 1 =
              fold hyb_update (map (\<lambda>x. py_get (snd x) b) items') 1"
      using hyb_fold_perm[OF mm] c by simp
    have len: "length (filter P items) = length (filter P items')" for P
      using m by (metis mset_filter size_mset)
    show ?thesis unfolding marks_loop_result hy sets len by (rule refl)
  qed
  have order: "(\<forall>cs'. mset cs' = mset cs \<longrightarrow> fold hyb_update cs' 1 = fold hyb_update cs 1) =
        (Hv (HInt 4) \<notin> set cs \<or> (Hv (HInt 3) \<notin> set cs \<and> count (mset cs) (Hv (HInt 2)) \<le> 1))"
    by (rule hyb_fold_order_iff)
  have both: "\<exists>cs1 cs2. mset cs1 = mset cs \<and> mset cs2 = mset cs \<and>
           fold hyb_update cs1 1 = 4 \<and> fold hyb_update cs2 1 = 3"
    if "Hv (HInt 4) \<in> set cs \<and> (Hv (HInt 3) \<in> set cs \<or> 2 \<le> count (mset cs) (Hv (HInt 2)))"
    using that hyb_fold_order_dependent[of cs] by blast
  have written: "(kind gr = Molecule \<longrightarrow>
           atom_attr gr' i ''s_hyb'' =
             Some (Hv (HInt (fold hyb_update (map (\<lambda>x. py_get (snd x) ''s_bond'') (adj gr i)) 1)))) \<and>
        (kind gr = CGR \<longrightarrow>
           atom_attr gr' i ''s_hyb'' =
             Some (Hv (HInt (fold hyb_update (map (\<lambda>x. py_get (snd x) ''s_bond'') (adj gr i)) 1))) \<and>
           atom_attr gr' i ''p_hyb'' =
             Some (Hv (HInt (fold hyb_update (map (\<lambda>x. py_get (snd x) ''p_bond'') (adj gr i)) 1))) \<and>
           atom_attr gr' i ''sp_hyb'' =
             Some (sp_mark (fold hyb_update (map (\<lambda>x. py_get (snd x) ''s_bond'') (adj gr i)) 1)
                           (fold hyb_update (map (\<lambda>x. py_get (snd x) ''p_bond'') (adj gr i)) 1)))"
    if "reset_query_marks gr = Inr gr' \<and> i \<in> set (node_ids gr)"
    using that reset_query_marks_hyb[of gr gr' i] by blast
  have rules: "(hyb \<noteq> 3 \<and> hyb \<noteq> 4 \<longrightarrow> hyb_update (Hv (HInt 4)) hyb = 4 \<and> hyb_update (Hv (HInt 3)) hyb = 3)
   \<and> hyb_update (Hv (HInt 2)) 2 = 3
   \<and> hyb_update (Hv (HInt 2)) 1 = 2
   \<and> hyb_update (Hv (HInt 1)) hyb = hyb
   \<and> hyb_update (Hv HNone) hyb = hyb
   \<and> (hyb = 3 \<or> hyb = 4 \<longrightarrow> hyb_update b_type hyb = hyb)
   \<and> (marks_loop g b items (1, 0) = Inr (h, n) \<longrightarrow>
        h = fold hyb_update (map (\<lambda>x. py_get (snd x) b) items) 1)
   \<and> fold hyb_update (Hv (HInt 4) # bs) 1 = 4
   \<and> fold hyb_update (Hv (HInt 3) # bs) 1 = 3
   \<and> (mset items = mset items' \<and>
        (Hv (HInt 4) \<notin> (\<lambda>x. py_get (snd x) b) ` set items \<or>
         (Hv (HInt 3) \<notin> (\<lambda>x. py_get (snd x) b) ` set items \<and>
          count (mset (map (\<lambda>x. py_get (snd x) b) items)) (Hv (HInt 2)) \<le> 1))
        \<longrightarrow> marks_loop g b items (1, 0) = marks_loop g b items' (1, 0))"
    using steps loop first4 first3 perm by (intro conjI impI) blast+
  have more: "((\<forall>cs'. mset cs' = mset cs \<longrightarrow> fold hyb_update cs' 1 = fold hyb_update cs 1) =
        (Hv (HInt 4) \<notin> set cs \<or> (Hv (HInt 3) \<notin> set cs \<and> count (mset cs) (Hv (HInt 2)) \<le> 1)))
   \<and> (Hv (HInt 4) \<in> set cs \<and> (Hv (HInt 3) \<in> set cs \<or> 2 \<le> count (mset cs) (Hv (HInt 2))) \<longrightarrow>
        (\<exists>cs1 cs2. mset cs1 = mset cs \<and> mset cs2 = mset cs \<and>
           fold hyb_update cs1 1 = 4 \<and> fold hyb_update cs2 1 = 3))
   \<and> (reset_query_marks gr = Inr gr' \<and> i \<in> set (node_ids gr) \<longrightarrow>
        (kind gr = Molecule \<longrightarrow>
           atom_attr gr' i ''s_hyb'' =
             Some (Hv (HInt (fold hyb_update (map (\<lambda>x. py_get (snd x) ''s_bond'') (adj gr i)) 1)))) \<and>
        (kind gr = CGR \<longrightarrow>
           atom_attr gr' i ''s_hyb'' =
             Some (Hv (HInt (fold hyb_update (map (\<lambda>x. py_get (snd x) ''s_bond'') (adj gr i)) 1))) \<and>
           atom_attr gr' i ''p_hyb'' =
             Some (Hv (HInt (fold hyb_update (map (\<lambda>x. py_get (snd x) ''p_bond'') (adj gr i)) 1))) \<and>
           atom_attr gr' i ''sp_hyb'' =
             Some (sp_mark (fold hyb_update (map (\<lambda>x. py_get (snd x) ''s_bond'') (adj gr i)) 1)
                           (fold hyb_update (map (\<lambda>x. py_get (snd x) ''p_bond'') (adj gr i)) 1))))"
    using order both written by (intro conjI impI) (assumption | blast)+
  from rules more show ?thesis
    apply (elim conjE)
    apply (intro conjI)
    apply assumption+
    done
qed


theorem hybridization_precedence_witness:
  "(1::int) \<noteq> 3 \<and> (1::int) \<noteq> 4
   \<and> hyb_update (Hv (HInt 4)) 1 = 4 \<and> hyb_update (Hv (HInt 3)) 1 = 3
   \<and> hyb_update (Hv (HInt 1)) 1 = 1
   \<and> marks_loop hyb_open_chain ''s_bond'' (adj hyb_open_chain 1) (1, 0) = Inr (3, 2)
   \<and> fold hyb_update (map (\<lambda>x. py_get (snd x) ''s_bond'') (adj hyb_open_chain 1)) 1 = 3
   \<and> mset (adj hyb_open_chain 1) = mset (rev (adj hyb_open_chain 1))
   \<and> Hv (HInt 4) \<notin> (\<lambda>x. py_get (snd x) ''s_bond'') ` set (adj hyb_open_chain 1)
   \<and> marks_loop hyb_open_chain ''s_bond'' (rev (adj hyb_open_chain 1)) (1, 0) = Inr (3, 2)
   \<and> Hv (HInt 4) \<notin> set [Hv (HInt 2), Hv (HInt 3), Hv (HInt 1)]
   \<and> mset [Hv (HInt 3), Hv (HInt 1), Hv (HInt 2)] = mset [Hv (HInt 2), Hv (HInt 3), Hv (HInt 1)]
   \<and> fold hyb_update [Hv (HInt 3), Hv (HInt 1), Hv (HInt 2)] 1 =
       fold hyb_update [Hv (HInt 2), Hv (HInt 3), Hv (HInt 1)] 1
   \<and> Hv (HInt 4) \<in> set [Hv (HInt 3), Hv (HInt 4)] \<and> Hv (HInt 3) \<in> set [Hv (HInt 3), Hv (HInt 4)]
   \<and> (\<exists>cs1 cs2. mset cs1 = mset [Hv (HInt 3), Hv (HInt 4)] \<and> mset cs2 = mset [Hv (HInt 3), Hv (HInt 4)]
          \<and> fold hyb_update cs1 1 = 4 \<and> fold hyb_update cs2 1 = 3)
   \<and> kind hyb_open_chain = Molecule \<and> 1 \<in> set (node_ids hyb_open_chain)
   \<and> (\<exists>gr'. reset_query_marks hyb_open_chain = Inr gr'
          \<and> atom_attr gr' 1 ''s_hyb'' = Some (Hv (HInt 3)))"
proof -
  note spec = hybridization_precedence[where hyb = 1 and b_type = "Hv (HInt 1)"
      and g = hyb_open_chain and b = "''s_bond''" and items = "adj hyb_open_chain 1"
      and h = 3 and n = 2 and bs = "[]" and items' = "rev (adj hyb_open_chain 1)"]
  have items: "adj hyb_open_chain 1 =
      [(2, [''s_bond'' \<mapsto> Hv (HInt 2)]), (3, [''s_bond'' \<mapsto> Hv (HInt 3)]),
       (4, [''s_bond'' \<mapsto> Hv (HInt 1)])]"
    by (simp add: adj_def touches_def hyb_open_chain_def)
  have run: "marks_loop hyb_open_chain ''s_bond'' (adj hyb_open_chain 1) (1, 0) = Inr (3, 2)"
    unfolding items by (simp add: py_get_def atom_def hyb_open_chain_def hyb_update_def)
  have m: "mset (adj hyb_open_chain 1) = mset (rev (adj hyb_open_chain 1))" by simp
  have no4: "Hv (HInt 4) \<notin> (\<lambda>x. py_get (snd x) ''s_bond'') ` set (adj hyb_open_chain 1)"
    unfolding items by (simp add: py_get_def)
  from spec[where cs = "[]" and gr = hyb_open_chain and i = 1 and gr' = hyb_open_chain]
  have c7: "marks_loop hyb_open_chain ''s_bond'' (adj hyb_open_chain 1) (1, 0) = Inr (3, 2) \<longrightarrow>
        3 = fold hyb_update (map (\<lambda>x. py_get (snd x) ''s_bond'') (adj hyb_open_chain 1)) 1"
    apply -
    apply (elim conjE)
    apply assumption
    done
  have h: "fold hyb_update (map (\<lambda>x. py_get (snd x) ''s_bond'') (adj hyb_open_chain 1)) 1 = 3"
    using c7 run by simp
  from spec[where cs = "[]" and gr = hyb_open_chain and i = 1 and gr' = hyb_open_chain]
  have c10: "mset (adj hyb_open_chain 1) = mset (rev (adj hyb_open_chain 1)) \<and>
        (Hv (HInt 4) \<notin> (\<lambda>x. py_get (snd x) ''s_bond'') ` set (adj hyb_open_chain 1) \<or>
         (Hv (HInt 3) \<notin> (\<lambda>x. py_get (snd x) ''s_bond'') ` set (adj hyb_open_chain 1) \<and>
          count (mset (map (\<lambda>x. py_get (snd x) ''s_bond'') (adj hyb_open_chain 1))) (Hv (HInt 2)) \<le> 1))
        \<longrightarrow> marks_loop hyb_open_chain ''s_bond'' (adj hyb_open_chain 1) (1, 0) =
            marks_loop hyb_open_chain ''s_bond'' (rev (adj hyb_open_chain 1)) (1, 0)"
    apply -
    apply (elim conjE)
    apply assumption
    done
  have r: "marks_loop hyb_open_chain ''s_bond'' (rev (adj hyb_open_chain 1)) (1, 0) = Inr (3, 2)"
    using c10 run m no4 by metis
  from spec[where cs = "[]" and gr = hyb_open_chain and i = 1 and gr' = hyb_open_chain]
  have s: "hyb_update (Hv (HInt 4)) 1 = 4 \<and> hyb_update (Hv (HInt 3)) 1 = 3 \<and> hyb_update (Hv (HInt 1)) 1 = 1"
    by simp
  have d: "(1::int) \<noteq> 3 \<and> (1::int) \<noteq> 4" by simp
  have n4: "Hv (HInt 4) \<notin> set [Hv (HInt 2), Hv (HInt 3), Hv (HInt 1)]" by simp
  have pm: "mset [Hv (HInt 3), Hv (HInt 1), Hv (HInt 2)] = mset [Hv (HInt 2), Hv (HInt 3), Hv (HInt 1)]"
    by simp
  from spec[where cs = "[Hv (HInt 2), Hv (HInt 3), Hv (HInt 1)]" and gr = hyb_open_chain and i = 1 and gr' = hyb_open_chain]
  have iff: "(\<forall>cs'. mset cs' = mset [Hv (HInt 2), Hv (HInt 3), Hv (HInt 1)] \<longrightarrow>
               fold hyb_update cs' 1 = fold hyb_update [Hv (HInt 2), Hv (HInt 3), Hv (HInt 1)] 1) =
        (Hv (HInt 4) \<notin> set [Hv (HInt 2), Hv (HInt 3), Hv (HInt 1)] \<or>
         (Hv (HInt 3) \<notin> set [Hv (HInt 2), Hv (HInt 3), Hv (HInt 1)] \<and>
          count (mset [Hv (HInt 2), Hv (HInt 3), Hv (HInt 1)]) (Hv (HInt 2)) \<le> 1))"
    apply -
    apply (elim conjE)
    apply assumption
    done
  have same: "fold hyb_update [Hv (HInt 3), Hv (HInt 1), Hv (HInt 2)] 1 =
       fold hyb_update [Hv (HInt 2), Hv (HInt 3), Hv (HInt 1)] 1"
    using iff n4 pm by blast
  have i4: "Hv (HInt 4) \<in> set [Hv (HInt 3), Hv (HInt 4)]" and i3: "Hv (HInt 3) \<in> set [Hv (HInt 3), Hv (HInt 4)]"
    by simp_all
  from spec[where cs = "[Hv (HInt 3), Hv (HInt 4)]" and gr = hyb_open_chain and i = 1 and gr' = hyb_open_chain]
  have dep: "Hv (HInt 4) \<in> set [Hv (HInt 3), Hv (HInt 4)] \<and>
       (Hv (HInt 3) \<in> set [Hv (HInt 3), Hv (HInt 4)] \<or> 2 \<le> count (mset [Hv (HInt 3), Hv (HInt 4)]) (Hv (HInt 2))) \<longrightarrow>
        (\<exists>cs1 cs2. mset cs1 = mset [Hv (HInt 3), Hv (HInt 4)] \<and> mset cs2 = mset [Hv (HInt 3), Hv (HInt 4)] \<and>
           fold hyb_update cs1 1 = 4 \<and> fold hyb_update cs2 1 = 3)"
    apply -
    apply (elim conjE)
    apply assumption
    done
  have both: "\<exists>cs1 cs2. mset cs1 = mset [Hv (HInt 3), Hv (HInt 4)] \<and> mset cs2 = mset [Hv (HInt 3), Hv (HInt 4)]
          \<and> fold hyb_update cs1 1 = 4 \<and> fold hyb_update cs2 1 = 3"
    using dep i4 i3 by blast
  have km: "kind hyb_open_chain = Molecule" and im: "1 \<in> set (node_ids hyb_open_chain)"
    by (simp_all add: hyb_open_chain_def node_ids_def)
  obtain gr' where gr': "reset_query_marks hyb_open_chain = Inr gr'"
    by (simp add: reset_query_marks_def mol_reset_query_marks_def hyb_open_chain_def node_ids_def
          mol_query_label_def adj_def touches_def atom_def py_get_def add_node_def)
  from spec[where cs = "[]" and gr = hyb_open_chain and i = 1 and gr' = gr']
  have wr: "reset_query_marks hyb_open_chain = Inr gr' \<and> 1 \<in> set (node_ids hyb_open_chain) \<longrightarrow>
        (kind hyb_open_chain = Molecule \<longrightarrow>
           atom_attr gr' 1 ''s_hyb'' =
             Some (Hv (HInt (fold hyb_update (map (\<lambda>x. py_get (snd x) ''s_bond'') (adj hyb_open_chain 1)) 1)))) \<and>
        (kind hyb_open_chain = CGR \<longrightarrow>
           atom_attr gr' 1 ''s_hyb'' =
             Some (Hv (HInt (fold hyb_update (map (\<lambda>x. py_get (snd x) ''s_bond'') (adj hyb_open_chain 1)) 1))) \<and>
           atom_attr gr' 1 ''p_hyb'' =
             Some (Hv (HInt (fold hyb_update (map (\<lambda>x. py_get (snd x) ''p_bond'') (adj hyb_open_chain 1)) 1))) \<and>
           atom_attr gr' 1 ''sp_hyb'' =
             Some (sp_mark (fold hyb_update (map (\<lambda>x. py_get (snd x) ''s_bond'') (adj hyb_open_chain 1)) 1)
                           (fold hyb_update (map (\<lambda>x. py_get (snd x) ''p_bond'') (adj hyb_open_chain 1)) 1)))"
    apply -
    apply (elim conjE)
    apply assumption
    done
  have "atom_attr gr' 1 ''s_hyb'' = Some (Hv (HInt 3))"
    using wr gr' im km h by simp
  then have written: "\<exists>gr'. reset_query_marks hyb_open_chain = Inr gr'
          \<and> atom_attr gr' 1 ''s_hyb'' = Some (Hv (HInt 3))"
    using gr' by blast
  show ?thesis
    apply (intro conjI)
    apply (insert d s run h m no4 r n4 pm same i4 i3 both km im written)
    apply (elim conjE, assumption)+
    done
qed

section \<open>The disjoint union\<close>

lemma union_lists:
  assumes wf1: "wf_graph m1" and wf2: "wf_graph m2"
    and disj: "set (node_ids m1) \<inter> set (node_ids m2) = {}"
  shows "CGRcore_union m1 m2 =
           Inr \<lparr>kind = (if kind m1 = CGR \<or> kind m2 = CGR then CGR else Molecule),
                node_list = node_list m1 @ node_list m2,
                edge_list = edge_list m1 @ edge_list m2,
                meta = Map.empty\<rparr>"
proof -
  define k where "k = (if kind m1 = CGR \<or> kind m2 = CGR then CGR else Molecule)"
  let ?u0 = "empty_graph k"
  have d1: "distinct (map fst (node_list m1))" and d2: "distinct (map fst (node_list m2))"
    using wf1 wf2 by (simp_all add: wf_graph_def node_ids_def)
  have u1: "add_nodes_from (node_list m1) ?u0 = ?u0\<lparr>node_list := node_list m1\<rparr>"
    using add_nodes_from_fresh[OF d1, of ?u0] by (simp add: empty_graph_def)
  have u2: "add_nodes_from (node_list m2) (?u0\<lparr>node_list := node_list m1\<rparr>) =
            ?u0\<lparr>node_list := node_list m1 @ node_list m2\<rparr>"
    using add_nodes_from_fresh[OF d2, of "?u0\<lparr>node_list := node_list m1\<rparr>"] disj
    by (simp add: node_ids_def Int_commute)
  let ?u2 = "?u0\<lparr>node_list := node_list m1 @ node_list m2\<rparr>"
  have e1: "distinct (map (\<lambda>x. norm_edge (fst x)) (edge_list m1))"
    and e2: "distinct (map (\<lambda>x. norm_edge (fst x)) (edge_list m2))"
    using wf1 wf2 by (simp_all add: wf_graph_def)
  have ends1: "\<forall>x \<in> set (edge_list m1). fst (fst x) \<in> fst ` set (node_list ?u2) \<and>
                 snd (fst x) \<in> fst ` set (node_list ?u2)"
    using wf_edge_ends[OF wf1] by (auto simp: node_ids_def image_Un)
  have u3: "add_edges_from (edge_list m1) ?u2 = ?u2\<lparr>edge_list := edge_list m1\<rparr>"
    using add_edges_from_fresh[OF e1 _ ends1] by (simp add: empty_graph_def)
  let ?u3 = "?u2\<lparr>edge_list := edge_list m1\<rparr>"
  have ends2: "\<forall>x \<in> set (edge_list m2). fst (fst x) \<in> fst ` set (node_list ?u3) \<and>
                 snd (fst x) \<in> fst ` set (node_list ?u3)"
    using wf_edge_ends[OF wf2] by (auto simp: node_ids_def image_Un)
  have cross: "(\<lambda>x. norm_edge (fst x)) ` set (edge_list m2) \<inter>
               (\<lambda>x. norm_edge (fst x)) ` set (edge_list ?u3) = {}"
  proof (rule ccontr)
    assume "\<not> ?thesis"
    then obtain x y where x: "x \<in> set (edge_list m2)" and y: "y \<in> set (edge_list m1)"
      and eq: "norm_edge (fst x) = norm_edge (fst y)" by (simp add: set_eq_iff image_iff) metis
    from norm_edge_ends[OF eq] have "fst (fst x) \<in> set (node_ids m1)"
      using wf_edge_ends[OF wf1 y] by auto
    moreover have "fst (fst x) \<in> set (node_ids m2)" using wf_edge_ends[OF wf2 x] by simp
    ultimately show False using disj by auto
  qed
  have u4: "add_edges_from (edge_list m2) ?u3 = ?u3\<lparr>edge_list := edge_list m1 @ edge_list m2\<rparr>"
    using add_edges_from_fresh[OF e2 cross ends2] by simp
  have "CGRcore_union m1 m2 =
          Inr (add_edges_from (edge_list m2) (add_edges_from (edge_list m1)
                 (add_nodes_from (node_list m2) (add_nodes_from (node_list m1) ?u0))))"
    unfolding CGRcore_union_def Let_def k_def using disj by (simp only: if_False simp_thms)
  also have "\<dots> = Inr \<lparr>kind = k, node_list = node_list m1 @ node_list m2,
                        edge_list = edge_list m1 @ edge_list m2, meta = Map.empty\<rparr>"
    by (simp add: u1 u2 u3 u4) (simp add: empty_graph_def)
  finally show ?thesis unfolding k_def .
qed

lemma find_app:
  "find P (xs @ ys) = (case find P xs of None \<Rightarrow> find P ys | Some x \<Rightarrow> Some x)"
  by (induction xs) auto

lemma find_same_edge_end:
  "find (\<lambda>e. same_edge (fst e) (n, m)) es = Some x \<Longrightarrow>
   x \<in> set es \<and> (n = fst (fst x) \<or> n = snd (fst x))"
  by (induction es) (auto simp: same_edge_def split: if_splits)

lemma bond_end:
  "wf_graph g \<Longrightarrow> bond g n m = Some a \<Longrightarrow> n \<in> set (node_ids g)"
  unfolding bond_def using find_same_edge_end wf_edge_ends by fastforce

text \<open>
  Claim C7.  \<^verbatim>\<open>union(m1, m2)\<close> raises its exception whenever the node-id sets overlap.
  For (well-formed) inputs with disjoint node-id sets it returns a new, well-formed entity
  whose node count and edge count are the sums of the inputs', in which every atom and
  every bond of either input has exactly the attribute mapping it has in its source,
  and whose kind is CGR if either input is a CGR and Molecule otherwise.
\<close>

theorem union_disjoint_sum:
  assumes wf1: "wf_graph m1" and wf2: "wf_graph m2"
  shows "(set (node_ids m1) \<inter> set (node_ids m2) \<noteq> {} \<longrightarrow>
            CGRcore_union m1 m2 = Inl (Exception ''The node sets of m1 and m2 are not disjoint.''))
       \<and> (set (node_ids m1) \<inter> set (node_ids m2) = {} \<longrightarrow>
            (\<exists>u. CGRcore_union m1 m2 = Inr u
               \<and> wf_graph u
               \<and> length (node_list u) = length (node_list m1) + length (node_list m2)
               \<and> length (edge_list u) = length (edge_list m1) + length (edge_list m2)
               \<and> (\<forall>n a. atom m1 n = Some a \<or> atom m2 n = Some a \<longrightarrow> atom u n = Some a)
               \<and> (\<forall>n m a. bond m1 n m = Some a \<or> bond m2 n m = Some a \<longrightarrow> bond u n m = Some a)
               \<and> kind u = (if kind m1 = CGR \<or> kind m2 = CGR then CGR else Molecule)))"
proof (intro conjI impI)
  assume "set (node_ids m1) \<inter> set (node_ids m2) \<noteq> {}"
  then show "CGRcore_union m1 m2 = Inl (Exception ''The node sets of m1 and m2 are not disjoint.'')"
    by (simp add: CGRcore_union_def)
next
  assume disj: "set (node_ids m1) \<inter> set (node_ids m2) = {}"
  define u where "u = \<lparr>kind = (if kind m1 = CGR \<or> kind m2 = CGR then CGR else Molecule),
                node_list = node_list m1 @ node_list m2,
                edge_list = edge_list m1 @ edge_list m2,
                meta = Map.empty\<rparr>"
  have res: "CGRcore_union m1 m2 = Inr u"
    unfolding u_def by (rule union_lists[OF wf1 wf2 disj])
  have nl: "node_list u = node_list m1 @ node_list m2"
    and el: "edge_list u = edge_list m1 @ edge_list m2" by (simp_all add: u_def)
  have ids: "node_ids u = node_ids m1 @ node_ids m2" by (simp add: node_ids_def nl)
  have cross: "norm_edge (fst x) \<noteq> norm_edge (fst y)"
    if "x \<in> set (edge_list m1)" "y \<in> set (edge_list m2)" for x y
  proof
    assume eq: "norm_edge (fst x) = norm_edge (fst y)"
    from norm_edge_ends[OF eq] have "fst (fst x) \<in> set (node_ids m2)"
      using wf_edge_ends[OF wf2 that(2)] by auto
    moreover have "fst (fst x) \<in> set (node_ids m1)" using wf_edge_ends[OF wf1 that(1)] by simp
    ultimately show False using disj by auto
  qed
  have wfu: "wf_graph u"
  proof -
    have "distinct (node_ids u)"
      using wf1 wf2 disj by (simp add: ids wf_graph_def)
    moreover have "list_all (\<lambda>e. fst (fst e) \<in> set (node_ids u) \<and> snd (fst e) \<in> set (node_ids u)) (edge_list u)"
      using wf_edge_ends[OF wf1] wf_edge_ends[OF wf2] by (auto simp: list_all_iff ids el)
    moreover have "distinct (map (\<lambda>e. norm_edge (fst e)) (edge_list u))"
    proof -
      have "(\<lambda>e. norm_edge (fst e)) ` set (edge_list m1) \<inter>
            (\<lambda>e. norm_edge (fst e)) ` set (edge_list m2) = {}"
        using cross by blast
      then show ?thesis using wf1 wf2 by (simp add: el wf_graph_def)
    qed
    ultimately show ?thesis by (simp add: wf_graph_def)
  qed
  have atoms: "atom u n = Some a" if "atom m1 n = Some a \<or> atom m2 n = Some a" for n a
  proof -
    from that show ?thesis
    proof
      assume "atom m1 n = Some a"
      then show ?thesis by (simp add: atom_def nl map_add_Some_iff)
    next
      assume a2: "atom m2 n = Some a"
      then have "n \<in> set (node_ids m2)"
        by (auto simp: atom_def node_ids_def dest: map_of_SomeD intro: rev_image_eqI)
      then have "n \<notin> set (node_ids m1)" using disj by auto
      then have "map_of (node_list m1) n = None" by (simp add: node_ids_def map_of_eq_None_iff)
      then show ?thesis using a2 by (simp add: atom_def nl map_add_Some_iff)
    qed
  qed
  have bonds: "bond u n m = Some a" if "bond m1 n m = Some a \<or> bond m2 n m = Some a" for n m a
  proof -
    from that show ?thesis
    proof
      assume "bond m1 n m = Some a"
      then show ?thesis by (auto simp: bond_def el find_app split: option.splits)
    next
      assume b2: "bond m2 n m = Some a"
      have "find (\<lambda>e. same_edge (fst e) (n, m)) (edge_list m1) = None"
      proof (rule ccontr)
        assume "\<not> ?thesis"
        then obtain b where "bond m1 n m = Some b" by (auto simp: bond_def)
        then have "n \<in> set (node_ids m1)" by (rule bond_end[OF wf1])
        moreover have "n \<in> set (node_ids m2)" by (rule bond_end[OF wf2 b2])
        ultimately show False using disj by auto
      qed
      then show ?thesis using b2 by (simp add: bond_def el find_app)
    qed
  qed
  show "\<exists>u. CGRcore_union m1 m2 = Inr u
               \<and> wf_graph u
               \<and> length (node_list u) = length (node_list m1) + length (node_list m2)
               \<and> length (edge_list u) = length (edge_list m1) + length (edge_list m2)
               \<and> (\<forall>n a. atom m1 n = Some a \<or> atom m2 n = Some a \<longrightarrow> atom u n = Some a)
               \<and> (\<forall>n m a. bond m1 n m = Some a \<or> bond m2 n m = Some a \<longrightarrow> bond u n m = Some a)
               \<and> kind u = (if kind m1 = CGR \<or> kind m2 = CGR then CGR else Molecule)"
    using res wfu atoms bonds by (intro exI[of _ u]) (simp add: nl el, simp add: u_def)
qed

lemma union_left_wf: "wf_graph union_left"
  by (simp add: wf_graph_def union_left_def node_ids_def norm_edge_def)

lemma union_right_wf: "wf_graph union_right"
  by (simp add: wf_graph_def union_right_def node_ids_def norm_edge_def)

theorem union_disjoint_sum_witness:
  "wf_graph union_left \<and> wf_graph union_right
   \<and> set (node_ids union_left) \<inter> set (node_ids union_right) = {}
   \<and> (\<exists>u. CGRcore_union union_left union_right = Inr u
          \<and> length (node_list u) = 3 \<and> length (edge_list u) = 1 \<and> kind u = CGR
          \<and> atom u 3 = atom union_right 3
          \<and> bond u 1 2 = Some [''s_bond'' \<mapsto> Hv (HInt 2)])
   \<and> set (node_ids union_left) \<inter> set (node_ids union_left) \<noteq> {}
   \<and> CGRcore_union union_left union_left = Inl (Exception ''The node sets of m1 and m2 are not disjoint.'')"
proof -
  have disj: "set (node_ids union_left) \<inter> set (node_ids union_right) = {}"
    by (simp add: union_left_def union_right_def node_ids_def)
  have overlap: "set (node_ids union_left) \<inter> set (node_ids union_left) \<noteq> {}"
    by (simp add: union_left_def node_ids_def)
  have a3: "atom union_right 3 = Some [''element'' \<mapsto> Hv (HStr ''N''), ''s_charge'' \<mapsto> Hv (HInt 0),
                        ''p_charge'' \<mapsto> Hv (HInt 1)]"
    by (simp add: atom_def union_right_def)
  have b12: "bond union_left 1 2 = Some [''s_bond'' \<mapsto> Hv (HInt 2)]"
    by (simp add: bond_def union_left_def same_edge_def)
  have sizes: "length (node_list union_left) + length (node_list union_right) = 3"
     "length (edge_list union_left) + length (edge_list union_right) = 1"
     "(if kind union_left = CGR \<or> kind union_right = CGR then CGR else Molecule) = CGR"
    by (simp_all add: union_left_def union_right_def)
  from union_disjoint_sum[OF union_left_wf union_right_wf] disj
  obtain u where u: "CGRcore_union union_left union_right = Inr u"
     "length (node_list u) = length (node_list union_left) + length (node_list union_right)"
     "length (edge_list u) = length (edge_list union_left) + length (edge_list union_right)"
     "\<forall>n a. atom union_left n = Some a \<or> atom union_right n = Some a \<longrightarrow> atom u n = Some a"
     "\<forall>n m a. bond union_left n m = Some a \<or> bond union_right n m = Some a \<longrightarrow> bond u n m = Some a"
     "kind u = (if kind union_left = CGR \<or> kind union_right = CGR then CGR else Molecule)"
    by blast
  have good: "\<exists>u. CGRcore_union union_left union_right = Inr u
          \<and> length (node_list u) = 3 \<and> length (edge_list u) = 1 \<and> kind u = CGR
          \<and> atom u 3 = atom union_right 3
          \<and> bond u 1 2 = Some [''s_bond'' \<mapsto> Hv (HInt 2)]"
    using u a3 b12 sizes by (intro exI[of _ u]) simp
  have bad: "CGRcore_union union_left union_left = Inl (Exception ''The node sets of m1 and m2 are not disjoint.'')"
    using union_disjoint_sum[OF union_left_wf union_left_wf] overlap by blast
  show ?thesis using union_left_wf union_right_wf disj good overlap bad by blast
qed

section \<open>The reaction center\<close>

lemma set_fst_filter:
  "set (map fst (filter (\<lambda>(n, a). P a) xs)) = {n. \<exists>a. (n, a) \<in> set xs \<and> P a}"
  by force

lemma set_endpoints_filter:
  "set (concat (map (\<lambda>((n, m), a). [n, m]) (filter (\<lambda>(e, a). Q a) es))) =
     {n. \<exists>e a. (e, a) \<in> set es \<and> Q a \<and> touches e n}"
proof (induction es)
  case Nil
  then show ?case by simp
next
  case (Cons x es)
  obtain u v a where x: "x = ((u, v), a)" by (metis surj_pair)
  show ?case unfolding x using Cons.IH by (auto simp: touches_def)
qed

lemma center_nodes:
  "set (get_center_atoms g) =
     {n. \<exists>a. (n, a) \<in> set (node_list g) \<and> py_get a ''s_charge'' \<noteq> py_get a ''p_charge''} \<union>
     {n. \<exists>e a. (e, a) \<in> set (edge_list g) \<and> py_get a ''s_bond'' \<noteq> py_get a ''p_bond'' \<and> touches e n}"
  unfolding get_center_atoms_def set_remdups set_append set_fst_filter set_endpoints_filter
  by (rule refl)

text \<open>
  Claim C8.  For every (well-formed) CGR entity, \<^verbatim>\<open>get_center_atoms()\<close> returns exactly
  the atoms whose \<^verbatim>\<open>s_charge\<close> differs from their \<^verbatim>\<open>p_charge\<close> together with the
  endpoints of every edge whose \<^verbatim>\<open>s_bond\<close> differs from its \<^verbatim>\<open>p_bond\<close> (a missing key
  reads as \<^verbatim>\<open>None\<close>).  In particular an atom with \<^verbatim>\<open>s_charge=0\<close> and \<^verbatim>\<open>p_charge=1\<close>
  is in the result, and an atom with equal charges all of whose incident edges have
  \<^verbatim>\<open>s_bond\<close> equal to \<^verbatim>\<open>p_bond\<close> is not.
\<close>

theorem get_center_atoms_reaction_center:
  assumes "wf_graph g"
  shows "set (get_center_atoms g) =
           {n. \<exists>a. atom g n = Some a \<and> py_get a ''s_charge'' \<noteq> py_get a ''p_charge''} \<union>
           {n. \<exists>e a. (e, a) \<in> set (edge_list g) \<and> py_get a ''s_bond'' \<noteq> py_get a ''p_bond'' \<and> touches e n}
         \<and> (\<forall>n a. atom g n = Some a \<and> a ''s_charge'' = Some (Hv (HInt 0)) \<and> a ''p_charge'' = Some (Hv (HInt 1))
               \<longrightarrow> n \<in> set (get_center_atoms g))
         \<and> (\<forall>n a. atom g n = Some a \<and> py_get a ''s_charge'' = py_get a ''p_charge'' \<and>
                  (\<forall>e b. (e, b) \<in> set (edge_list g) \<and> touches e n \<longrightarrow> py_get b ''s_bond'' = py_get b ''p_bond'')
               \<longrightarrow> n \<notin> set (get_center_atoms g))"
proof -
  have first: "set (get_center_atoms g) =
           {n. \<exists>a. atom g n = Some a \<and> py_get a ''s_charge'' \<noteq> py_get a ''p_charge''} \<union>
           {n. \<exists>e a. (e, a) \<in> set (edge_list g) \<and> py_get a ''s_bond'' \<noteq> py_get a ''p_bond'' \<and> touches e n}"
    unfolding center_nodes wf_atom_iff[OF assms] by (rule refl)
  have second: "n \<in> set (get_center_atoms g)"
    if "atom g n = Some a" "a ''s_charge'' = Some (Hv (HInt 0))" "a ''p_charge'' = Some (Hv (HInt 1))" for n a
  proof -
    have "py_get a ''s_charge'' \<noteq> py_get a ''p_charge''" using that by (simp add: py_get_def)
    then show ?thesis unfolding first using that(1) by blast
  qed
  have third: "n \<notin> set (get_center_atoms g)"
    if "atom g n = Some a" "py_get a ''s_charge'' = py_get a ''p_charge''"
       "\<forall>e b. (e, b) \<in> set (edge_list g) \<and> touches e n \<longrightarrow> py_get b ''s_bond'' = py_get b ''p_bond''" for n a
    unfolding first using that by auto
  show ?thesis using first second third by blast
qed

lemma center_example_wf: "wf_graph center_example"
  by (simp add: wf_graph_def center_example_def node_ids_def norm_edge_def)

theorem get_center_atoms_reaction_center_witness:
  "wf_graph center_example
   \<and> atom center_example 1 = Some [''s_charge'' \<mapsto> Hv (HInt 0), ''p_charge'' \<mapsto> Hv (HInt 1)]
   \<and> 1 \<in> set (get_center_atoms center_example)
   \<and> atom center_example 2 = Some [''s_charge'' \<mapsto> Hv (HInt 0), ''p_charge'' \<mapsto> Hv (HInt 0)]
   \<and> 2 \<notin> set (get_center_atoms center_example)
   \<and> set (get_center_atoms center_example) = {1, 3, 4}"
proof -
  note spec = get_center_atoms_reaction_center[OF center_example_wf]
  have a1: "atom center_example 1 = Some [''s_charge'' \<mapsto> Hv (HInt 0), ''p_charge'' \<mapsto> Hv (HInt 1)]"
    by (simp add: atom_def center_example_def)
  have a2: "atom center_example 2 = Some [''s_charge'' \<mapsto> Hv (HInt 0), ''p_charge'' \<mapsto> Hv (HInt 0)]"
    by (simp add: atom_def center_example_def)
  have in1: "1 \<in> set (get_center_atoms center_example)"
    using spec a1 by fastforce
  have edges2: "\<forall>e b. (e, b) \<in> set (edge_list center_example) \<and> touches e 2
                  \<longrightarrow> py_get b ''s_bond'' = py_get b ''p_bond''"
    by (auto simp: center_example_def touches_def py_get_def)
  have c2: "py_get [''s_charge'' \<mapsto> Hv (HInt 0), ''p_charge'' \<mapsto> Hv (HInt 0)] ''s_charge'' =
            py_get [''s_charge'' \<mapsto> Hv (HInt 0), ''p_charge'' \<mapsto> Hv (HInt 0)] ''p_charge''"
    by (simp add: py_get_def)
  have out2: "2 \<notin> set (get_center_atoms center_example)"
    using spec a2 edges2 c2 by blast
  have all: "set (get_center_atoms center_example) = {1, 3, 4}"
    by (simp add: get_center_atoms_def center_example_def py_get_def)
  show ?thesis using center_example_wf a1 a2 in1 out2 all by blast
qed

section \<open>Environment expansion\<close>

lemma endpoints_of_iff:
  "n \<in> endpoints_of g S \<longleftrightarrow>
     (\<exists>e \<in> set (edge_list g). (fst (fst e) \<in> S \<or> snd (fst e) \<in> S) \<and> touches (fst e) n)"
  unfolding endpoints_of_def edges_of_def touches_def by (auto; force)

lemma adj_nonempty_iff:
  "adj g n \<noteq> [] \<longleftrightarrow> (\<exists>e \<in> set (edge_list g). touches (fst e) n)"
  unfolding adj_def by (simp add: filter_empty_conv)

lemma endpoints_have_edges: "n \<in> endpoints_of g S \<Longrightarrow> adj g n \<noteq> []"
  unfolding endpoints_of_iff adj_nonempty_iff by blast

lemma endpoints_cover: "n \<in> S \<Longrightarrow> adj g n \<noteq> [] \<Longrightarrow> n \<in> endpoints_of g S"
  unfolding endpoints_of_iff adj_nonempty_iff touches_def by blast

lemma env_loop_stop:
  "endpoints_of g (nodes ! i) = {} \<or> endpoints_of g (nodes ! i) \<in> set nodes \<Longrightarrow>
   env_loop g k i nodes = nodes"
  by (cases k) (auto simp: Let_def)

lemma env_loop_last_keeps:
  assumes a: "adj g a \<noteq> []" and c: "adj g c = []"
  shows "length nodes = Suc i \<Longrightarrow>
         a \<in> last nodes \<and> c \<notin> last nodes \<and> N \<subseteq> last nodes \<and> (\<forall>n \<in> last nodes. adj g n \<noteq> []) \<Longrightarrow>
         a \<in> last (env_loop g k i nodes) \<and> c \<notin> last (env_loop g k i nodes) \<and>
         N \<subseteq> last (env_loop g k i nodes) \<and> (\<forall>n \<in> last (env_loop g k i nodes). adj g n \<noteq> [])"
proof (induction k arbitrary: i nodes)
  case 0
  then show ?case by simp
next
  case (Suc k)
  have ne: "nodes \<noteq> []" using Suc.prems(1) by auto
  have cur: "nodes ! i = last nodes" using Suc.prems(1) ne by (simp add: last_conv_nth)
  let ?n = "endpoints_of g (nodes ! i)"
  have sub: "last nodes \<subseteq> ?n" unfolding cur using Suc.prems(2) endpoints_cover by blast
  have q: "a \<in> ?n \<and> c \<notin> ?n \<and> N \<subseteq> ?n \<and> (\<forall>n \<in> ?n. adj g n \<noteq> [])"
    using sub Suc.prems(2) endpoints_have_edges c by blast
  have next_state: "a \<in> last (env_loop g k (Suc i) (nodes @ [?n])) \<and>
      c \<notin> last (env_loop g k (Suc i) (nodes @ [?n])) \<and>
      N \<subseteq> last (env_loop g k (Suc i) (nodes @ [?n])) \<and>
      (\<forall>n \<in> last (env_loop g k (Suc i) (nodes @ [?n])). adj g n \<noteq> [])"
    by (rule Suc.IH) (use Suc.prems(1) q in simp_all)
  show ?case
  proof (cases "?n = {} \<or> ?n \<in> set nodes")
    case True
    then have "env_loop g (Suc k) i nodes = nodes" by (rule env_loop_stop)
    then show ?thesis using Suc.prems(2) by simp
  next
    case False
    then have "env_loop g (Suc k) i nodes = env_loop g k (Suc i) (nodes @ [?n])"
      by (simp add: Let_def)
    then show ?thesis using next_state by simp
  qed
qed

lemma subgraph_ids: "set (node_ids (subgraph g S m)) = set (node_ids g) \<inter> S"
  unfolding subgraph_def node_ids_def by force

text \<open>
  Claim C10.  When the core atoms contain an atom \<open>c\<close> with no incident edge together
  with an atom \<open>a\<close> that has one, \<^verbatim>\<open>get_environment\<close> with \<^verbatim>\<open>deep >= 1\<close> and \<^verbatim>\<open>dante\<close>
  false returns the subgraph on a node set \<open>S\<close> that does not contain \<open>c\<close>: the first
  step replaces the core set by the endpoints of the edges incident to it, a new
  non-empty set, and every later set consists of edge endpoints too.  So \<open>S\<close> contains
  \<open>a\<close> and all endpoints of the edges at the core, every atom of \<open>S\<close> has an incident
  edge, and for \<^verbatim>\<open>deep = 1\<close> the set \<open>S\<close> is exactly those endpoints.
\<close>

theorem get_environment_drops_isolated_core:
  assumes "c \<in> set atoms" and "adj g c = []"
    and "a \<in> set atoms" and "adj g a \<noteq> []"
    and "1 \<le> deep"
  shows "\<exists>S. get_environment g atoms False deep = One (subgraph g S False)
           \<and> c \<notin> S \<and> a \<in> S
           \<and> endpoints_of g (set atoms) \<subseteq> S
           \<and> (\<forall>n \<in> S. adj g n \<noteq> [])
           \<and> (deep = 1 \<longrightarrow> S = endpoints_of g (set atoms))
           \<and> c \<notin> set (node_ids (subgraph g S False))
           \<and> (a \<in> set (node_ids g) \<longrightarrow> a \<in> set (node_ids (subgraph g S False)))"
proof -
  obtain k where deep: "deep = Suc k" using assms(5) by (cases deep) auto
  let ?n = "endpoints_of g (set atoms)"
  let ?S = "last (env_loop g deep 0 [set atoms])"
  have an: "a \<in> ?n" by (rule endpoints_cover[OF assms(3,4)])
  have cn: "c \<notin> ?n" using endpoints_have_edges assms(2) by blast
  then have new: "?n \<notin> set [set atoms]" using assms(1) by auto
  have step: "env_loop g deep 0 [set atoms] = env_loop g k (Suc 0) [set atoms, ?n]"
    unfolding deep using an new by (auto simp: Let_def)
  have q: "a \<in> ?S \<and> c \<notin> ?S \<and> ?n \<subseteq> ?S \<and> (\<forall>n \<in> ?S. adj g n \<noteq> [])"
    unfolding step
    by (rule env_loop_last_keeps[OF assms(4,2)]) (use an cn endpoints_have_edges in auto)
  have one: "deep = 1 \<longrightarrow> ?S = ?n"
  proof
    assume "deep = 1"
    then have "k = 0" using deep by simp
    then show "?S = ?n" unfolding step by simp
  qed
  have res: "get_environment g atoms False deep = One (subgraph g ?S False)"
    by (simp add: get_environment_def Let_def)
  have ids: "c \<notin> set (node_ids (subgraph g ?S False))"
    "a \<in> set (node_ids g) \<longrightarrow> a \<in> set (node_ids (subgraph g ?S False))"
    using q by (simp_all add: subgraph_ids)
  show ?thesis using res q one ids by (intro exI[of _ ?S]) blast
qed

theorem get_environment_drops_isolated_core_witness:
  "(3::int) \<in> set [1, 3] \<and> adj env_pair 3 = [] \<and> (1::int) \<in> set [1, 3] \<and> adj env_pair 1 \<noteq> []
   \<and> (1::nat) \<le> 2
   \<and> 3 \<in> set (node_ids env_pair)
   \<and> get_environment env_pair [1, 3] False 2 = One (subgraph env_pair {1, 2} False)
   \<and> node_ids (subgraph env_pair {1, 2} False) = [1, 2]
   \<and> (\<exists>S. get_environment env_pair [1, 3] False 2 = One (subgraph env_pair S False)
          \<and> 3 \<notin> S \<and> 1 \<in> S \<and> 3 \<notin> set (node_ids (subgraph env_pair S False))
          \<and> 1 \<in> set (node_ids (subgraph env_pair S False)))"
proof -
  have c: "(3::int) \<in> set [1, 3]" and a: "(1::int) \<in> set [1, 3]" and d: "(1::nat) \<le> 2" by simp_all
  have iso: "adj env_pair 3 = []" by (simp add: adj_def touches_def env_pair_def)
  have bonded: "adj env_pair 1 \<noteq> []" by (simp add: adj_def touches_def env_pair_def)
  have node: "3 \<in> set (node_ids env_pair)" and node1: "1 \<in> set (node_ids env_pair)"
    by (simp_all add: node_ids_def env_pair_def)
  have e1: "endpoints_of env_pair {1, 3} = {1, 2}"
    by (simp add: endpoints_of_def edges_of_def env_pair_def)
  have e2: "endpoints_of env_pair {1, 2} = {1, 2}"
    by (simp add: endpoints_of_def edges_of_def env_pair_def)
  have "(3::int) \<notin> {1, 2}" by simp
  then have ne: "{1, 2} \<noteq> {1, 3::int}" by blast
  have lst: "set [1, 3::int] = {1, 3}" by simp
  have two: "(2::nat) = Suc (Suc 0)" by simp
  have loop: "env_loop env_pair 2 0 [{1, 3}] = [{1, 3}, {1, 2}]"
    unfolding two using ne by (simp add: Let_def e1 e2)
  have run: "get_environment env_pair [1, 3] False 2 = One (subgraph env_pair {1, 2} False)"
    unfolding get_environment_def lst by (simp add: Let_def loop)
  have ids: "node_ids (subgraph env_pair {1, 2} False) = [1, 2]"
    by (simp add: subgraph_def node_ids_def env_pair_def)
  from get_environment_drops_isolated_core[OF c iso a bonded d] node1
  have res: "\<exists>S. get_environment env_pair [1, 3] False 2 = One (subgraph env_pair S False)
          \<and> 3 \<notin> S \<and> 1 \<in> S \<and> 3 \<notin> set (node_ids (subgraph env_pair S False))
          \<and> 1 \<in> set (node_ids (subgraph env_pair S False))"
    by blast
  show ?thesis using c a d iso bonded node run ids res by blast
qed

lemma edge_rel_iff:
  "(u, v) \<in> edge_rel g \<longleftrightarrow> (\<exists>e \<in> set (edge_list g). fst e = (u, v) \<or> fst e = (v, u))"
  unfolding edge_rel_def same_edge_def by auto

lemma edge_rel_sym: "(u, v) \<in> edge_rel g \<Longrightarrow> (v, u) \<in> edge_rel g"
  unfolding edge_rel_iff by blast

lemma endpoints_rel:
  "n \<in> endpoints_of g S \<longleftrightarrow>
     (\<exists>s \<in> S. (s, n) \<in> edge_rel g) \<or> (n \<in> S \<and> (\<exists>m. (n, m) \<in> edge_rel g))"
proof
  assume "n \<in> endpoints_of g S"
  then obtain e where e: "e \<in> set (edge_list g)" "fst (fst e) \<in> S \<or> snd (fst e) \<in> S"
      "fst (fst e) = n \<or> snd (fst e) = n"
    unfolding endpoints_of_iff touches_def by blast
  have r: "(fst (fst e), snd (fst e)) \<in> edge_rel g" "(snd (fst e), fst (fst e)) \<in> edge_rel g"
    unfolding edge_rel_iff using e(1) by (metis prod.collapse)+
  show "(\<exists>s \<in> S. (s, n) \<in> edge_rel g) \<or> (n \<in> S \<and> (\<exists>m. (n, m) \<in> edge_rel g))"
    using e(2,3) r by metis
next
  assume "(\<exists>s \<in> S. (s, n) \<in> edge_rel g) \<or> (n \<in> S \<and> (\<exists>m. (n, m) \<in> edge_rel g))"
  then obtain e where "e \<in> set (edge_list g)"
      "(\<exists>s \<in> S. fst e = (s, n) \<or> fst e = (n, s)) \<or> (n \<in> S \<and> (\<exists>m. fst e = (n, m) \<or> fst e = (m, n)))"
    unfolding edge_rel_iff by blast
  then show "n \<in> endpoints_of g S"
    unfolding endpoints_of_iff touches_def by (intro bexI[of _ e]) auto
qed

lemma component_step:
  "x \<in> component g a \<Longrightarrow> (x, y) \<in> edge_rel g \<Longrightarrow> y \<in> component g a"
  unfolding component_def by (simp add: rtrancl.rtrancl_into_rtrancl)

lemma component_self: "a \<in> component g a"
  unfolding component_def by simp

lemma two_component_edge:
  assumes comp: "component g a = {a, b}" and ab: "a \<noteq> b"
  shows "(a, b) \<in> edge_rel g"
proof (rule ccontr)
  assume no: "(a, b) \<notin> edge_rel g"
  have "x = a" if "(a, x) \<in> (edge_rel g)\<^sup>*" for x
    using that
  proof (induction rule: rtrancl_induct)
    case base
    then show ?case by simp
  next
    case (step y z)
    then have az: "(a, z) \<in> edge_rel g" by simp
    then have "z \<in> component g a" using component_step[OF component_self] by blast
    then show ?case using comp az no by auto
  qed
  moreover have "(a, b) \<in> (edge_rel g)\<^sup>*" using comp by (auto simp: component_def)
  ultimately show False using ab by blast
qed

lemma two_component_endpoints:
  assumes comp: "component g a = {a, b}" and ab: "a \<noteq> b"
  shows "endpoints_of g {a} = {a, b}" and "endpoints_of g {a, b} = {a, b}"
proof -
  have e: "(a, b) \<in> edge_rel g" by (rule two_component_edge[OF comp ab])
  have e': "(b, a) \<in> edge_rel g" by (rule edge_rel_sym[OF e])
  have sa: "y \<in> {a, b}" if "(a, y) \<in> edge_rel g" for y
    using component_step[OF component_self that] comp by simp
  have bc: "b \<in> component g a" using comp by simp
  have sb: "y \<in> {a, b}" if "(b, y) \<in> edge_rel g" for y
    using component_step[OF bc that] comp by simp
  show "endpoints_of g {a} = {a, b}"
  proof (rule set_eqI)
    fix n show "n \<in> endpoints_of g {a} \<longleftrightarrow> n \<in> {a, b}"
      unfolding endpoints_rel using sa e by auto
  qed
  show "endpoints_of g {a, b} = {a, b}"
  proof (rule set_eqI)
    fix n show "n \<in> endpoints_of g {a, b} \<longleftrightarrow> n \<in> {a, b}"
      unfolding endpoints_rel using sa sb e e' by auto
  qed
qed

lemma two_component_loop:
  assumes comp: "component g a = {a, b}" and ab: "a \<noteq> b"
  shows "env_loop g (Suc k) 0 [{a}] = [{a}, {a, b}]"
proof -
  note ep = two_component_endpoints[OF comp ab]
  have ne: "{a, b} \<noteq> {a}" using ab by auto
  have first: "env_loop g (Suc k) 0 [{a}] = env_loop g k (Suc 0) [{a}, {a, b}]"
    using ne by (simp add: Let_def ep(1))
  have "env_loop g k (Suc 0) [{a}, {a, b}] = [{a}, {a, b}]"
    by (rule env_loop_stop) (simp add: ep(2))
  then show ?thesis using first by simp
qed

lemma env_loop_refines_spec:
  "length nodes = Suc i \<Longrightarrow> (\<forall>M \<in> set nodes. M \<subseteq> last nodes) \<Longrightarrow>
   (\<forall>x \<in> last nodes. adj g x \<noteq> []) \<or> endpoints_of g (last nodes) = {} \<Longrightarrow>
   env_loop g k i nodes = env_loop_spec g k i nodes"
proof (induction k arbitrary: i nodes)
  case 0
  then show ?case by simp
next
  case (Suc k)
  have ne: "nodes \<noteq> []" using Suc.prems(1) by auto
  have cur: "nodes ! i = last nodes" using Suc.prems(1) ne by (simp add: last_conv_nth)
  let ?n = "endpoints_of g (nodes ! i)"
  have stop_iff: "(?n = {} \<or> ?n \<in> set nodes) \<longleftrightarrow> ?n \<subseteq> nodes ! i"
  proof (cases "endpoints_of g (last nodes) = {}")
    case True
    then show ?thesis by (simp add: cur)
  next
    case False
    then have bonded: "\<forall>x \<in> last nodes. adj g x \<noteq> []" using Suc.prems(3) by blast
    then have sub: "last nodes \<subseteq> ?n" unfolding cur using endpoints_cover by blast
    show ?thesis
    proof
      assume "?n = {} \<or> ?n \<in> set nodes"
      then show "?n \<subseteq> nodes ! i" using Suc.prems(2) cur by auto
    next
      assume "?n \<subseteq> nodes ! i"
      then have "?n = last nodes" using sub cur by auto
      then show "?n = {} \<or> ?n \<in> set nodes" using ne by simp
    qed
  qed
  show ?case
  proof (cases "?n \<subseteq> nodes ! i")
    case True
    then have "?n = {} \<or> ?n \<in> set nodes" using stop_iff by blast
    then have "env_loop g (Suc k) i nodes = nodes" by (rule env_loop_stop)
    then show ?thesis using True by (simp add: Let_def)
  next
    case False
    then have go: "\<not> (?n = {} \<or> ?n \<in> set nodes)" using stop_iff by blast
    then have ne_ep: "endpoints_of g (last nodes) \<noteq> {}" by (simp add: cur)
    then have bonded: "\<forall>x \<in> last nodes. adj g x \<noteq> []" using Suc.prems(3) by blast
    then have sub: "last nodes \<subseteq> ?n" unfolding cur using endpoints_cover by blast
    have "env_loop g k (Suc i) (nodes @ [?n]) = env_loop_spec g k (Suc i) (nodes @ [?n])"
    proof (rule Suc.IH)
      show "length (nodes @ [?n]) = Suc (Suc i)" using Suc.prems(1) by simp
      show "\<forall>M \<in> set (nodes @ [?n]). M \<subseteq> last (nodes @ [?n])"
        using Suc.prems(2) sub by auto
      show "(\<forall>x \<in> last (nodes @ [?n]). adj g x \<noteq> []) \<or> endpoints_of g (last (nodes @ [?n])) = {}"
        using endpoints_have_edges by auto
    qed
    then show ?thesis using False go by (simp add: Let_def)
  qed
qed

lemma single_core_refines_spec: "env_loop g k 0 [{a}] = env_loop_spec g k 0 [{a}]"
proof (rule env_loop_refines_spec)
  show "length [{a}] = Suc 0" by simp
  show "\<forall>M \<in> set [{a}]. M \<subseteq> last [{a}]" by simp
  show "(\<forall>x \<in> last [{a}]. adj g x \<noteq> []) \<or> endpoints_of g (last [{a}]) = {}"
  proof (cases "adj g a = []")
    case True
    have "endpoints_of g {a} = {}"
    proof (rule ccontr)
      assume "endpoints_of g {a} \<noteq> {}"
      then obtain n where "n \<in> endpoints_of g {a}" by blast
      then have "adj g a \<noteq> []"
        unfolding endpoints_of_iff adj_nonempty_iff touches_def by blast
      then show False using True by simp
    qed
    then show ?thesis by simp
  next
    case False
    then show ?thesis by simp
  qed
qed

text \<open>
  The scenario of a single core atom.  When the connected component of the core atom
  \<open>a\<close> is the two atoms \<open>a\<close> and \<open>b\<close>, \<^verbatim>\<open>get_environment\<close> with depth 5 (with any
  depth of at least 1) expands one hop, to \<open>{a, b}\<close>, stops there and returns the
  subgraph on the component, without an error.  From a single core atom the loop of the
  source agrees with the documented expansion altogether: for every graph, core atom
  and depth it builds the same node sets, and so the same result, as the expansion that
  stops at the first step adding no new atom.  The loop itself stops when a step yields
  the empty set or a set already in the list, which at a set all of whose atoms have an
  incident edge is the case as soon as the step adds no new atoms.
\<close>

theorem get_environment_two_atom_component:
  assumes comp: "component g a = {a, b}" and ab: "a \<noteq> b" and deep: "1 \<le> deep"
  shows "env_loop g deep 0 [set [a]] = [{a}, {a, b}]
       \<and> get_environment g [a] False deep = One (subgraph g {a, b} False)
       \<and> get_environment g [a] True deep = Many [subgraph g {a} False, subgraph g {a, b} False]
       \<and> (endpoints_of g (nodes ! i) = {} \<or> endpoints_of g (nodes ! i) \<in> set nodes
            \<longrightarrow> env_loop g k i nodes = nodes)
       \<and> (endpoints_of g (nodes ! i) \<noteq> {} \<and> endpoints_of g (nodes ! i) \<notin> set nodes
            \<longrightarrow> env_loop g (Suc k) i nodes = env_loop g k (Suc i) (nodes @ [endpoints_of g (nodes ! i)]))
       \<and> (i < length nodes \<and> (\<forall>n \<in> nodes ! i. adj g n \<noteq> []) \<and> endpoints_of g (nodes ! i) \<subseteq> nodes ! i
            \<longrightarrow> env_loop g k i nodes = nodes)
       \<and> env_loop h depth 0 [set [c]] = env_loop_spec h depth 0 [set [c]]
       \<and> get_environment h [c] dante depth =
           (let nodes = env_loop_spec h depth 0 [set [c]] in
            if dante then Many (map (\<lambda>a. subgraph h a False) nodes)
            else One (subgraph h (last nodes) False))"
proof -
  obtain d where d: "deep = Suc d" using deep by (cases deep) auto
  have loop: "env_loop g deep 0 [set [a]] = [{a}, {a, b}]"
    unfolding d using two_component_loop[OF comp ab] by simp
  have one: "get_environment g [a] False deep = One (subgraph g {a, b} False)"
    using loop by (simp add: get_environment_def Let_def)
  have many: "get_environment g [a] True deep = Many [subgraph g {a} False, subgraph g {a, b} False]"
    using loop by (simp add: get_environment_def Let_def)
  have stop: "env_loop g k i nodes = nodes"
    if "endpoints_of g (nodes ! i) = {} \<or> endpoints_of g (nodes ! i) \<in> set nodes"
    using that by (rule env_loop_stop)
  have go: "env_loop g (Suc k) i nodes = env_loop g k (Suc i) (nodes @ [endpoints_of g (nodes ! i)])"
    if "endpoints_of g (nodes ! i) \<noteq> {} \<and> endpoints_of g (nodes ! i) \<notin> set nodes"
    using that by (simp add: Let_def)
  have mono: "env_loop g k i nodes = nodes"
    if "i < length nodes \<and> (\<forall>n \<in> nodes ! i. adj g n \<noteq> []) \<and> endpoints_of g (nodes ! i) \<subseteq> nodes ! i"
  proof -
    have "nodes ! i \<subseteq> endpoints_of g (nodes ! i)" using that endpoints_cover by blast
    then have "endpoints_of g (nodes ! i) = nodes ! i" using that by blast
    then have "endpoints_of g (nodes ! i) \<in> set nodes" using that by simp
    then show ?thesis by (intro env_loop_stop) simp
  qed
  have refine: "env_loop h depth 0 [set [c]] = env_loop_spec h depth 0 [set [c]]"
    using single_core_refines_spec[of h depth c] by simp
  have result: "get_environment h [c] dante depth =
           (let nodes = env_loop_spec h depth 0 [set [c]] in
            if dante then Many (map (\<lambda>a. subgraph h a False) nodes)
            else One (subgraph h (last nodes) False))"
    unfolding get_environment_def refine by (rule refl)
  have scenario: "env_loop g deep 0 [set [a]] = [{a}, {a, b}]
       \<and> get_environment g [a] False deep = One (subgraph g {a, b} False)
       \<and> get_environment g [a] True deep = Many [subgraph g {a} False, subgraph g {a, b} False]
       \<and> (endpoints_of g (nodes ! i) = {} \<or> endpoints_of g (nodes ! i) \<in> set nodes
            \<longrightarrow> env_loop g k i nodes = nodes)
       \<and> (endpoints_of g (nodes ! i) \<noteq> {} \<and> endpoints_of g (nodes ! i) \<notin> set nodes
            \<longrightarrow> env_loop g (Suc k) i nodes = env_loop g k (Suc i) (nodes @ [endpoints_of g (nodes ! i)]))
       \<and> (i < length nodes \<and> (\<forall>n \<in> nodes ! i. adj g n \<noteq> []) \<and> endpoints_of g (nodes ! i) \<subseteq> nodes ! i
            \<longrightarrow> env_loop g k i nodes = nodes)"
    using loop one many stop go mono by (intro conjI impI) blast+
  from scenario refine result show ?thesis
    apply (elim conjE)
    apply (intro conjI)
    apply assumption+
    done
qed

lemma env_pair_component: "component env_pair 1 = {1, 2}"
proof -
  have rel: "edge_rel env_pair = {(1, 2), (2, 1)}"
    unfolding edge_rel_def by (auto simp: env_pair_def same_edge_def)
  have "x \<in> {1, 2}" if "(1, x) \<in> (edge_rel env_pair)\<^sup>*" for x
    using that by (induction rule: rtrancl_induct) (auto simp: rel)
  moreover have "(1, 2) \<in> (edge_rel env_pair)\<^sup>*" by (rule r_into_rtrancl) (simp add: rel)
  ultimately show ?thesis unfolding component_def by auto
qed

theorem get_environment_two_atom_component_witness:
  "component env_pair 1 = {1, 2} \<and> (1::int) \<noteq> 2 \<and> (1::nat) \<le> 5
   \<and> env_loop env_pair 5 0 [set [1]] = [{1}, {1, 2}]
   \<and> get_environment env_pair [1] False 5 = One (subgraph env_pair {1, 2} False)
   \<and> node_ids (subgraph env_pair {1, 2} False) = [1, 2]
   \<and> endpoints_of env_pair ([{1}, {1, 2}] ! 1) \<in> set [{1}, {1, 2}]
   \<and> env_loop env_pair 4 1 [{1}, {1, 2}] = [{1}, {1, 2}]
   \<and> env_loop_spec env_pair 5 0 [set [1]] = [{1}, {1, 2}]"
proof -
  have ab: "(1::int) \<noteq> 2" and d: "(1::nat) \<le> 5" by simp_all
  note spec = get_environment_two_atom_component[OF env_pair_component ab d,
      where nodes = "[{1}, {1, 2}]" and i = 1 and k = 4 and h = env_pair and c = 1
        and depth = 5 and dante = False]
  have ids: "node_ids (subgraph env_pair {1, 2} False) = [1, 2]"
    by (simp add: subgraph_def node_ids_def env_pair_def)
  have seen: "endpoints_of env_pair ([{1}, {1, 2}] ! 1) \<in> set [{1}, {1, 2}]"
    by (simp add: endpoints_of_def edges_of_def env_pair_def)
  from spec have l: "env_loop env_pair 5 0 [set [1]] = [{1}, {1, 2}]" by blast
  from spec have o: "get_environment env_pair [1] False 5 = One (subgraph env_pair {1, 2} False)" by blast
  from spec seen have s: "env_loop env_pair 4 1 [{1}, {1, 2}] = [{1}, {1, 2}]" by blast
  from spec have r: "env_loop env_pair 5 0 [set [1]] = env_loop_spec env_pair 5 0 [set [1]]" by blast
  have sp: "env_loop_spec env_pair 5 0 [set [1]] = [{1}, {1, 2}]" using l r by simp
  show ?thesis using env_pair_component ab d l o ids seen s sp by blast
qed

text \<open>
  Claim C9 at a core with an edgeless atom.  The expansion is documented to run
  ``up to deep or while new nodes available'' and to return the ``subgraph with atoms
  and their neighbors''.  In the graph with atoms 1, 2, 3 and the single bond 1-2, from
  the core \<open>{1, 2, 3}\<close> the first step yields \<open>{1, 2}\<close>: it adds no new atom, so the
  expansion that stops as soon as a step adds no new atoms keeps \<open>[{1, 2, 3}]\<close> and
  returns the subgraph on the core, the result of depth 0.  The loop of the source tests
  \<^verbatim>\<open>n in nodes\<close> instead: \<open>{1, 2}\<close> is not yet in the list, so it is appended, and the
  call with depth 5 returns the subgraph on \<open>{1, 2}\<close>, which lacks the core atom 3.
\<close>

theorem get_environment_continues_without_new_atoms:
  "endpoints_of env_pair (set [1, 2, 3]) = {1, 2}
   \<and> env_loop env_pair 5 0 [set [1, 2, 3]] = [{1, 2, 3}, {1, 2}]
   \<and> get_environment env_pair [1, 2, 3] False 5 = One (subgraph env_pair {1, 2} False)
   \<and> get_environment env_pair [1, 2, 3] False 0 = One (subgraph env_pair {1, 2, 3} False)
   \<and> node_ids (subgraph env_pair {1, 2} False) = [1, 2]
   \<and> node_ids (subgraph env_pair {1, 2, 3} False) = [1, 2, 3]
   \<and> env_loop_spec env_pair 5 0 [set [1, 2, 3]] = [{1, 2, 3}]"
proof -
  have e1: "endpoints_of env_pair {1, 2, 3} = {1, 2}"
    by (simp add: endpoints_of_def edges_of_def env_pair_def)
  have e2: "endpoints_of env_pair {1, 2} = {1, 2}"
    by (simp add: endpoints_of_def edges_of_def env_pair_def)
  have "(3::int) \<notin> {1, 2}" by simp
  then have ne: "{1, 2} \<noteq> {1, 2, 3::int}" by blast
  have step: "env_loop env_pair (Suc k) 0 [{1, 2, 3}] = env_loop env_pair k (Suc 0) [{1, 2, 3}, {1, 2}]" for k
    using ne by (simp add: Let_def e1)
  have stop: "env_loop env_pair k (Suc 0) [{1, 2, 3}, {1, 2}] = [{1, 2, 3}, {1, 2}]" for k
    by (rule env_loop_stop) (simp add: e2)
  have five: "(5::nat) = Suc 4" by simp
  have loop: "env_loop env_pair 5 0 [{1, 2, 3}] = [{1, 2, 3}, {1, 2}]"
    unfolding five step stop by (rule refl)
  have lst: "set [1, 2, 3::int] = {1, 2, 3}" by simp
  have ids: "node_ids (subgraph env_pair {1, 2} False) = [1, 2]"
    "node_ids (subgraph env_pair {1, 2, 3} False) = [1, 2, 3]"
    by (simp_all add: subgraph_def node_ids_def env_pair_def)
  have spk: "env_loop_spec env_pair (Suc k) 0 [{1, 2, 3}] = [{1, 2, 3}]" for k
    by (simp add: Let_def e1)
  have sp: "env_loop_spec env_pair 5 0 [{1, 2, 3}] = [{1, 2, 3}]"
    unfolding five spk by (rule refl)
  show ?thesis unfolding lst using e1 loop ids sp by (simp add: get_environment_def Let_def)
qed

end
